theory Spec2Isabelle
  imports Complex_Main "HOL-Library.Char_ord" "HOL-Library.List_Lexorder" "HOL-Library.Multiset" "HOL-Library.Word"
begin

section \<open>Go strings, as byte lists\<close>

text \<open>
  A Go \<^verbatim>\<open>string\<close> is a sequence of bytes; it is modelled as a \<^typ>\<open>string\<close>
  (a list of 8-bit characters), and \<^verbatim>\<open>len\<close> is \<^const>\<open>length\<close>.  The
  functions of package \<^verbatim>\<open>strings\<close> that the scanner calls are written out on
  bytes.  With the lexicographic order on lists and the byte order on characters, \<open><\<close>
  on \<^typ>\<open>string\<close> is Go's \<^verbatim>\<open><\<close> on strings.  Case mapping
  (\<^verbatim>\<open>ToLower\<close>, \<^verbatim>\<open>EqualFold\<close>) covers the ASCII range: only the letters A to
  Z have a lower-case form.
\<close>

definition HasPrefix :: "string \<Rightarrow> string \<Rightarrow> bool" where
  "HasPrefix s p = (take (length p) s = p)"

definition HasSuffix :: "string \<Rightarrow> string \<Rightarrow> bool" where
  "HasSuffix s p = (length p \<le> length s \<and> drop (length s - length p) s = p)"

text \<open>
  White space is what \<^verbatim>\<open>unicode.IsSpace\<close> accepts.  \<open>isSpace\<close> is Go's table for
  the ASCII range: tab, line feed, vertical tab, form feed, carriage return and space.
  \<open>unicode_spaces\<close> lists the other white space characters in UTF-8: U+0085, U+00A0,
  U+1680, U+2000 to U+200A, U+2028, U+2029, U+202F, U+205F and U+3000.  Go decodes the
  string into runes, forwards or backwards, and a byte that starts no valid encoding is
  a rune of its own that is not white space.  A rune is white space exactly when its
  bytes are one of these encodings, and no encoding starts with a continuation byte, so
  the rune that Go decodes at the front (at the end) of a string is white space exactly
  when one of the encodings is a prefix (a suffix) of the string.  \<open>space_prefix s\<close>
  and \<open>space_suffix s\<close> are the number of bytes of the white space character that
  \<open>s\<close> starts with and ends with, zero when it does not.
\<close>

definition isSpace :: "char \<Rightarrow> bool" where
  "isSpace c = (c = CHR 0x09 \<or> c = CHR 0x0A \<or> c = CHR 0x0B \<or> c = CHR 0x0C \<or> c = CHR 0x0D \<or> c = CHR '' '')"

definition unicode_spaces :: "string list" where
  "unicode_spaces =
     [[CHR 0xC2, CHR 0x85], [CHR 0xC2, CHR 0xA0],
      [CHR 0xE1, CHR 0x9A, CHR 0x80],
      [CHR 0xE2, CHR 0x80, CHR 0x80], [CHR 0xE2, CHR 0x80, CHR 0x81],
      [CHR 0xE2, CHR 0x80, CHR 0x82], [CHR 0xE2, CHR 0x80, CHR 0x83],
      [CHR 0xE2, CHR 0x80, CHR 0x84], [CHR 0xE2, CHR 0x80, CHR 0x85],
      [CHR 0xE2, CHR 0x80, CHR 0x86], [CHR 0xE2, CHR 0x80, CHR 0x87],
      [CHR 0xE2, CHR 0x80, CHR 0x88], [CHR 0xE2, CHR 0x80, CHR 0x89],
      [CHR 0xE2, CHR 0x80, CHR 0x8A],
      [CHR 0xE2, CHR 0x80, CHR 0xA8], [CHR 0xE2, CHR 0x80, CHR 0xA9],
      [CHR 0xE2, CHR 0x80, CHR 0xAF],
      [CHR 0xE2, CHR 0x81, CHR 0x9F],
      [CHR 0xE3, CHR 0x80, CHR 0x80]]"

definition space_prefix :: "string \<Rightarrow> nat" where
  "space_prefix s =
     (case s of
        [] \<Rightarrow> 0
      | c # cs \<Rightarrow>
          (if isSpace c then 1
           else (case find (HasPrefix s) unicode_spaces of None \<Rightarrow> 0 | Some w \<Rightarrow> length w)))"

definition space_suffix :: "string \<Rightarrow> nat" where
  "space_suffix s =
     (if s = [] then 0
      else if isSpace (last s) then 1
      else (case find (HasSuffix s) unicode_spaces of None \<Rightarrow> 0 | Some w \<Rightarrow> length w))"

text \<open>
  \<^verbatim>\<open>strings.TrimSpace\<close>: the white space characters at the front are cut, then those
  at the end (\<^verbatim>\<open>TrimLeftFunc\<close> and \<^verbatim>\<open>TrimRightFunc\<close> with
  \<^verbatim>\<open>unicode.IsSpace\<close>; the loops over ASCII bytes in Go's function are a fast path to
  the same result).
\<close>

function TrimLeftSpace :: "string \<Rightarrow> string" where
  "TrimLeftSpace s = (if space_prefix s = 0 then s else TrimLeftSpace (drop (space_prefix s) s))"
  by pat_completeness auto
termination
  by (relation "measure length") (auto simp: space_prefix_def split: list.splits)

declare TrimLeftSpace.simps [simp del]

function TrimRightSpace :: "string \<Rightarrow> string" where
  "TrimRightSpace s =
     (if space_suffix s = 0 then s else TrimRightSpace (take (length s - space_suffix s) s))"
  by pat_completeness auto
termination
  by (relation "measure length") (auto simp: space_suffix_def split: if_splits)

declare TrimRightSpace.simps [simp del]

definition TrimSpace :: "string \<Rightarrow> string" where
  "TrimSpace s = TrimRightSpace (TrimLeftSpace s)"

definition TrimPrefix :: "string \<Rightarrow> string \<Rightarrow> string" where
  "TrimPrefix s p = (if HasPrefix s p then drop (length p) s else s)"

definition TrimSuffix :: "string \<Rightarrow> string \<Rightarrow> string" where
  "TrimSuffix s p = (if HasSuffix s p then take (length s - length p) s else s)"

text \<open>\<^verbatim>\<open>strings.Trim(s, cutset)\<close> and \<^verbatim>\<open>strings.TrimLeft(s, cutset)\<close>.\<close>

definition TrimLeft :: "string \<Rightarrow> string \<Rightarrow> string" where
  "TrimLeft s cutset = dropWhile (\<lambda>c. c \<in> set cutset) s"

definition Trim :: "string \<Rightarrow> string \<Rightarrow> string" where
  "Trim s cutset = rev (dropWhile (\<lambda>c. c \<in> set cutset) (rev (dropWhile (\<lambda>c. c \<in> set cutset) s)))"

text \<open>
  \<^verbatim>\<open>strings.Split(s, sep)\<close> for a separator of one byte: the pieces between the
  separators, always at least one piece.
\<close>

fun Split_go :: "string \<Rightarrow> char \<Rightarrow> string \<Rightarrow> string list" where
  "Split_go [] sep cur = [cur]"
| "Split_go (c # cs) sep cur =
     (if c = sep then cur # Split_go cs sep [] else Split_go cs sep (cur @ [c]))"

definition Split :: "string \<Rightarrow> char \<Rightarrow> string list" where
  "Split s sep = Split_go s sep []"

text \<open>\<^verbatim>\<open>strings.SplitN(s, sep, 2)[0]\<close>: the text before the first separator.\<close>

definition SplitN2_first :: "string \<Rightarrow> char \<Rightarrow> string" where
  "SplitN2_first s sep = takeWhile (\<lambda>c. c \<noteq> sep) s"

text \<open>
  \<^verbatim>\<open>strings.Fields\<close>: the maximal runs of bytes between white space characters.
\<close>

function Fields_go :: "string \<Rightarrow> string \<Rightarrow> string list" where
  "Fields_go s cur =
     (case s of
        [] \<Rightarrow> (if cur = [] then [] else [cur])
      | c # cs \<Rightarrow>
          (if space_prefix s = 0 then Fields_go cs (cur @ [c])
           else if cur = [] then Fields_go (drop (space_prefix s) s) []
           else cur # Fields_go (drop (space_prefix s) s) []))"
  by pat_completeness auto
termination
  by (relation "measure (\<lambda>(s, cur). length s)") auto

declare Fields_go.simps [simp del]

definition Fields :: "string \<Rightarrow> string list" where
  "Fields s = Fields_go s []"

fun Contains :: "string \<Rightarrow> string \<Rightarrow> bool" where
  "Contains [] sub = (sub = [])"
| "Contains (c # cs) sub = (HasPrefix (c # cs) sub \<or> Contains cs sub)"

definition lowerChar :: "char \<Rightarrow> char" where
  "lowerChar c =
     (if CHR ''A'' \<le> c \<and> c \<le> CHR ''Z'' then char_of (of_char c + (32::nat)) else c)"

definition ToLower :: "string \<Rightarrow> string" where
  "ToLower s = map lowerChar s"

definition EqualFold :: "string \<Rightarrow> string \<Rightarrow> bool" where
  "EqualFold s t = (ToLower s = ToLower t)"

text \<open>\<^verbatim>\<open>strings.Join(parts, sep)\<close>.\<close>

fun Join :: "string list \<Rightarrow> string \<Rightarrow> string" where
  "Join [] sep = []"
| "Join [p] sep = p"
| "Join (p # q # ps) sep = p @ sep @ Join (q # ps) sep"

text \<open>\<^verbatim>\<open>strings.ReplaceAll(s, old, new)\<close> for one-byte \<^verbatim>\<open>old\<close> and \<^verbatim>\<open>new\<close>.\<close>

definition ReplaceAll :: "string \<Rightarrow> char \<Rightarrow> char \<Rightarrow> string" where
  "ReplaceAll s old new = map (\<lambda>c. if c = old then new else c) s"

section \<open>Package \<^verbatim>\<open>path/filepath\<close> on a Unix host\<close>

text \<open>
  The separator is the slash, so \<^verbatim>\<open>filepath.ToSlash\<close> is the identity.
  \<^verbatim>\<open>filepath.Base\<close> and \<^verbatim>\<open>filepath.Ext\<close> follow the library's code.
  \<^verbatim>\<open>filepath.Join\<close> is modelled on the arguments the scanner gives it: a root
  that is already clean (the command passes \<^verbatim>\<open>filepath.Abs\<close> of its flag) and
  a relative path made of plain names, on which the final \<^verbatim>\<open>Clean\<close> changes
  nothing.
\<close>

definition Base :: "string \<Rightarrow> string" where
  "Base p =
     (if p = [] then ''.''
      else let q = rev (dropWhile (\<lambda>c. c = CHR ''/'') (rev p))
           in if q = [] then ''/''
              else rev (takeWhile (\<lambda>c. c \<noteq> CHR ''/'') (rev q)))"

fun Ext_go :: "string \<Rightarrow> string \<Rightarrow> string" where
  "Ext_go [] acc = []"
| "Ext_go (c # cs) acc =
     (if c = CHR ''/'' then []
      else if c = CHR ''.'' then c # acc
      else Ext_go cs (c # acc))"

definition Ext :: "string \<Rightarrow> string" where
  "Ext p = Ext_go (rev p) []"

definition filepath_Join :: "string \<Rightarrow> string \<Rightarrow> string" where
  "filepath_Join dir p = (if dir = ''/'' then dir @ p else dir @ ''/'' @ p)"

section \<open>The file system\<close>

text \<open>
  A regular file delivers its bytes and then ends, with \<open>EOF\<close> when it is healthy and
  with another error when the device fails; a file can also refuse to open.  A directory
  is a list of named entries.  The file system is the tree mounted at an absolute path.
\<close>

datatype io_error = EOF | ErrUnexpectedEOF | ErrNotExist | ErrPermission | ErrIsDir | ErrIO

datatype node =
    Regular string io_error
  | Locked io_error
  | Dir "(string \<times> node) list"

record filesys =
  mount :: string
  top :: node

fun lookup_node :: "node \<Rightarrow> string list \<Rightarrow> node option"
  and lookup_entries :: "(string \<times> node) list \<Rightarrow> string \<Rightarrow> string list \<Rightarrow> node option" where
  "lookup_node n [] = Some n"
| "lookup_node (Dir es) (c # cs) = lookup_entries es c cs"
| "lookup_node (Regular d e) (c # cs) = None"
| "lookup_node (Locked e) (c # cs) = None"
| "lookup_entries [] c cs = None"
| "lookup_entries ((nm, n) # es) c cs = (if nm = c then lookup_node n cs else lookup_entries es c cs)"

definition resolve :: "filesys \<Rightarrow> string \<Rightarrow> node option" where
  "resolve fs p =
     (if p = mount fs then Some (top fs)
      else if HasPrefix p (filepath_Join (mount fs) [])
      then lookup_node (top fs) (Split (drop (length (filepath_Join (mount fs) [])) p) (CHR ''/''))
      else None)"

text \<open>
  \<^verbatim>\<open>os.Open\<close>: the byte stream behind a path (its bytes and the error that ends
  them), or the error of the open.  A directory opens, and its first read fails.
\<close>

definition os_Open :: "filesys \<Rightarrow> string \<Rightarrow> io_error + (string \<times> io_error)" where
  "os_Open fs p =
     (case resolve fs p of
        None \<Rightarrow> Inl ErrNotExist
      | Some (Locked e) \<Rightarrow> Inl e
      | Some (Regular d e) \<Rightarrow> Inr (d, e)
      | Some (Dir es) \<Rightarrow> Inr ([], ErrIsDir))"

text \<open>\<^verbatim>\<open>os.ReadFile\<close>: all the bytes, or the error of the open or of a read.\<close>

definition os_ReadFile :: "filesys \<Rightarrow> string \<Rightarrow> io_error + string" where
  "os_ReadFile fs p =
     (case os_Open fs p of
        Inl e \<Rightarrow> Inl e
      | Inr (d, e) \<Rightarrow> (if e = EOF then Inr d else Inl e))"

text \<open>
  \<^verbatim>\<open>io.ReadFull(r, buf[:k])\<close> on a stream with bytes \<open>d\<close> left: \<open>k\<close> bytes and no
  error when there are that many, else what is left with \<open>EOF\<close> (nothing read),
  \<open>ErrUnexpectedEOF\<close> (the stream ended early) or the stream's own error.
  \<^verbatim>\<open>Read(buf)\<close> of a \<^verbatim>\<open>bufio.Reader\<close>, with \<open>k\<close> the length of \<open>buf\<close>: the next bytes, at
  most \<open>k\<close>, and no error while bytes are left; then the error that ends the stream.
  A read of a regular file is not cut short before the end of the file.
\<close>

definition ReadFull :: "string \<Rightarrow> io_error \<Rightarrow> nat \<Rightarrow> string \<times> io_error option" where
  "ReadFull d e k =
     (if k \<le> length d then (take k d, None)
      else (d, Some (if e = EOF then (if d = [] then EOF else ErrUnexpectedEOF) else e)))"

definition Read :: "string \<Rightarrow> io_error \<Rightarrow> nat \<Rightarrow> string \<times> io_error option" where
  "Read d e k = (if d = [] then ([], Some e) else (take k d, None))"

section \<open>Package \<^verbatim>\<open>files\<close>\<close>

text \<open>
  The repository holds two variants of this package.  Both are embedded; the suffix tells
  them apart: \<open>_1\<close> is the variant with \<^verbatim>\<open>io.ReadFull\<close> and a \<^verbatim>\<open>MatchAny\<close> on
  the path alone, \<open>_2\<close> the variant with \<^verbatim>\<open>Read\<close> in chunks of 4096 bytes and a
  \<^verbatim>\<open>MatchAny\<close> that also tries the base name.  \<^verbatim>\<open>DefaultIgnore\<close> is the same in
  both.  What package \<^verbatim>\<open>collect\<close> calls is a parameter \<open>pk\<close> of its functions, a
  record of the two functions that differ; \<open>files_1\<close> and \<open>files_2\<close> are the two
  variants.
\<close>

definition DefaultIgnore :: "string list" where
  "DefaultIgnore =
     [''.git/'', ''.git/**'',
      ''.hg/'', ''.svn/'',
      ''node_modules/**'', ''dist/**'', ''build/**'', ''out/**'', ''bin/**'', ''obj/**'',
      ''.venv/**'', ''venv/**'', ''__pycache__/**'',
      ''.idea/**'', ''.vscode/**'', ''.DS_Store'',
      ''.terraform/**'', ''vendor/**'',
      ''*.png'', ''*.jpg'', ''*.jpeg'', ''*.gif'', ''*.webp'', ''*.ico'',
      ''*.pdf'', ''*.ppt'', ''*.pptx'', ''*.doc'', ''*.docx'', ''*.xls'', ''*.xlsx'',
      ''*.zip'', ''*.tar'', ''*.gz'', ''*.tgz'', ''*.7z'',
      ''*.mp4'', ''*.mp3'', ''*.mov'', ''*.avi'']"

text \<open>
  \<open>ReadHead\<close> returns a text and an error side by side, as the Go function does: after a
  failed read the text read so far comes back with the error.  The byte cap is an
  \<^verbatim>\<open>int64\<close>; the running total never exceeds it, so it is an \<^typ>\<open>int\<close> here.
\<close>

function ReadHead_1_loop :: "int \<Rightarrow> string \<Rightarrow> io_error \<Rightarrow> int \<Rightarrow> string \<Rightarrow> string \<times> io_error option" where
  "ReadHead_1_loop maxBytes d e tot builder =
     (if tot < maxBytes then
        (let toRead = (if maxBytes - tot < 32 * 1024 then maxBytes - tot else 32 * 1024);
             r = ReadFull d e (nat toRead);
             n = length (fst r);
             builder' = (if n > 0 then builder @ fst r else builder);
             tot' = (if n > 0 then tot + int n else tot)
         in if snd r = Some EOF \<or> snd r = Some ErrUnexpectedEOF then (builder', None)
            else (case snd r of
                    Some readErr \<Rightarrow> (builder', Some readErr)
                  | None \<Rightarrow> ReadHead_1_loop maxBytes (drop n d) e tot' builder'))
      else (builder, None))"
  by pat_completeness auto
termination
  by (relation "measure (\<lambda>(maxBytes, d, e, tot, builder). nat (maxBytes - tot))")
     (auto simp: ReadFull_def split: if_splits)

declare ReadHead_1_loop.simps [simp del]

definition ReadHead_1 :: "filesys \<Rightarrow> string \<Rightarrow> int \<Rightarrow> string \<times> io_error option" where
  "ReadHead_1 fs p maxBytes =
     (case os_Open fs p of
        Inl err \<Rightarrow> ([], Some err)
      | Inr (d, e) \<Rightarrow>
          (if maxBytes \<le> 0 then ([], None)
           else ReadHead_1_loop maxBytes d e 0 []))"

function ReadHead_2_loop :: "int \<Rightarrow> string \<Rightarrow> io_error \<Rightarrow> int \<Rightarrow> string \<Rightarrow> string \<times> io_error option" where
  "ReadHead_2_loop cap d e n b =
     (if n \<ge> cap then (b, None)
      else
        (let chunk = (if cap - n < 4096 then cap - n else 4096);
             r = Read d e (nat chunk);
             rd = length (fst r);
             b' = (if rd > 0 then b @ fst r else b);
             n' = (if rd > 0 then n + int rd else n)
         in if snd r = Some EOF then (b', None)
            else (case snd r of
                    Some err \<Rightarrow> (b', Some err)
                  | None \<Rightarrow> ReadHead_2_loop cap (drop rd d) e n' b')))"
  by pat_completeness auto
termination
  by (relation "measure (\<lambda>(cap, d, e, n, b). nat (cap - n))")
     (auto simp: Read_def split: if_splits)

declare ReadHead_2_loop.simps [simp del]

definition ReadHead_2 :: "filesys \<Rightarrow> string \<Rightarrow> int \<Rightarrow> string \<times> io_error option" where
  "ReadHead_2 fs p cap =
     (case os_Open fs p of
        Inl err \<Rightarrow> ([], Some err)
      | Inr (d, e) \<Rightarrow> ReadHead_2_loop cap d e 0 [])"

text \<open>
  \<^verbatim>\<open>filepath.Match\<close> belongs to Go's library; the package drops the error it
  returns.  The functions take it as the parameter \<open>Match\<close>: \<open>Match g name\<close> is the
  boolean that \<^verbatim>\<open>filepath.Match(g, name)\<close> returns.
\<close>

fun MatchAny_1_loop :: "(string \<Rightarrow> string \<Rightarrow> bool) \<Rightarrow> string list \<Rightarrow> string \<Rightarrow> bool" where
  "MatchAny_1_loop Match [] p = False"
| "MatchAny_1_loop Match (g # globs) p =
     (if Match g p then True else MatchAny_1_loop Match globs p)"

definition MatchAny_1 :: "(string \<Rightarrow> string \<Rightarrow> bool) \<Rightarrow> string list \<Rightarrow> string \<Rightarrow> bool" where
  "MatchAny_1 Match globs p = (if length globs = 0 then False else MatchAny_1_loop Match globs p)"

fun MatchAny_2 :: "(string \<Rightarrow> string \<Rightarrow> bool) \<Rightarrow> string list \<Rightarrow> string \<Rightarrow> bool" where
  "MatchAny_2 Match [] p = False"
| "MatchAny_2 Match (g # globs) p =
     (if Match g p then True
      else if Match g (Base p) then True
      else MatchAny_2 Match globs p)"


record files_pkg =
  ReadHead :: "filesys \<Rightarrow> string \<Rightarrow> int \<Rightarrow> string \<times> io_error option"
  MatchAny :: "(string \<Rightarrow> string \<Rightarrow> bool) \<Rightarrow> string list \<Rightarrow> string \<Rightarrow> bool"

definition files_1 :: files_pkg where
  "files_1 = \<lparr>ReadHead = ReadHead_1, MatchAny = MatchAny_1\<rparr>"

definition files_2 :: files_pkg where
  "files_2 = \<lparr>ReadHead = ReadHead_2, MatchAny = MatchAny_2\<rparr>"

text \<open>
  For running the scanner on concrete trees: the pattern language of
  \<^verbatim>\<open>filepath.Match\<close> on patterns made of literal bytes, \<open>*\<close> (any run of bytes
  other than the slash) and \<open>?\<close> (one byte other than the slash).  Every pattern of
  \<open>DefaultIgnore\<close> is of this kind.
\<close>

fun glob :: "string \<Rightarrow> string \<Rightarrow> bool" where
  "glob [] name = (name = [])"
| "glob (c # pat) [] = (c = CHR ''*'' \<and> glob pat [])"
| "glob (c # pat) (x # xs) =
     (if c = CHR ''*'' then glob pat (x # xs) \<or> (x \<noteq> CHR ''/'' \<and> glob (c # pat) xs)
      else if c = CHR ''?'' then x \<noteq> CHR ''/'' \<and> glob pat xs
      else x = c \<and> glob pat xs)"

section \<open>Package \<^verbatim>\<open>collect\<close>: the extractors\<close>

record GoModule =
  Path :: string
  Module :: string
  Requires :: "string list"

record ProtoInfo =
  ProtoInfo_File :: string
  Package :: string
  Services :: "string list"
  RPCs :: "string list"

record Decision =
  Decision_File :: string
  Decision_Title :: string
  Decision_Summary :: string

definition NL :: char where
  "NL = CHR 0x0A"

fun require_loop :: "string list \<Rightarrow> string list \<Rightarrow> string list" where
  "require_loop [] reqs = reqs"
| "require_loop (r # rs) reqs =
     (let r' = TrimSpace r
      in if r' = [] \<or> HasPrefix r' ''//'' then require_loop rs reqs
         else (let parts = Fields r'
               in if length parts \<ge> 1 then require_loop rs (reqs @ [hd parts])
                  else require_loop rs reqs))"

fun parseGoMod_loop :: "string list \<Rightarrow> GoModule \<Rightarrow> GoModule" where
  "parseGoMod_loop [] gm = gm"
| "parseGoMod_loop (line # lns) gm =
     (let line' = TrimSpace line;
          gm1 = (if HasPrefix line' ''module ''
                 then gm\<lparr>Module := TrimSpace (TrimPrefix line' ''module'')\<rparr>
                 else gm);
          gm2 = (if HasPrefix line' ''require ''
                 then (let rest = Trim (TrimSpace (TrimPrefix line' ''require'')) ''()''
                       in gm1\<lparr>Requires := require_loop (Split rest NL) (Requires gm1)\<rparr>)
                 else gm1)
      in parseGoMod_loop lns gm2)"

definition parseGoMod :: "filesys \<Rightarrow> string \<Rightarrow> io_error + GoModule" where
  "parseGoMod fs path =
     (case os_ReadFile fs path of
        Inl err \<Rightarrow> Inl err
      | Inr data \<Rightarrow>
          Inr (parseGoMod_loop (Split data NL) \<lparr>Path = path, Module = [], Requires = []\<rparr>))"

fun parseProto_loop :: "string list \<Rightarrow> ProtoInfo \<Rightarrow> ProtoInfo" where
  "parseProto_loop [] pinfo = pinfo"
| "parseProto_loop (line # lns) pinfo =
     (let line' = TrimSpace line;
          pinfo1 = (if HasPrefix line' ''package ''
                 then pinfo\<lparr>Package := TrimSuffix (TrimSpace (TrimPrefix line' ''package'')) '';''\<rparr>
                 else pinfo);
          pinfo2 = (if HasPrefix line' ''service ''
                 then (let svc = TrimSpace (TrimPrefix line' ''service'');
                           svc' = TrimSpace (SplitN2_first svc (CHR ''{''))
                       in pinfo1\<lparr>Services := Services pinfo1 @ [svc']\<rparr>)
                 else pinfo1);
          pinfo3 = (if HasPrefix line' ''rpc ''
                 then (let rpc = TrimSpace (TrimPrefix line' ''rpc'');
                           rpc' = TrimSpace (SplitN2_first rpc (CHR ''(''))
                       in pinfo2\<lparr>RPCs := RPCs pinfo2 @ [rpc']\<rparr>)
                 else pinfo2)
      in parseProto_loop lns pinfo3)"

definition parseProto :: "files_pkg \<Rightarrow> filesys \<Rightarrow> string \<Rightarrow> int \<Rightarrow> io_error + ProtoInfo" where
  "parseProto pk fs path maxBytes =
     (case ReadHead pk fs path maxBytes of
        (head, Some err) \<Rightarrow> Inl err
      | (head, None) \<Rightarrow>
          Inr (parseProto_loop (Split head NL)
                 \<lparr>ProtoInfo_File = path, Package = [], Services = [], RPCs = []\<rparr>))"

fun parseMakeTargets_loop :: "string list \<Rightarrow> string list \<Rightarrow> string list" where
  "parseMakeTargets_loop [] targets = targets"
| "parseMakeTargets_loop (line # lns) targets =
     (let line' = TrimSpace line
      in if line' = [] \<or> HasPrefix line' ''#'' then parseMakeTargets_loop lns targets
         else if \<not> Contains line' ''='' \<and> HasSuffix line' '':'' \<and> \<not> Contains line' '' ''
         then (let t = TrimSuffix line' '':''
               in if t \<noteq> [] then parseMakeTargets_loop lns (targets @ [t])
                  else parseMakeTargets_loop lns targets)
         else parseMakeTargets_loop lns targets)"

definition parseMakeTargets :: "files_pkg \<Rightarrow> filesys \<Rightarrow> string \<Rightarrow> int \<Rightarrow> io_error + string list" where
  "parseMakeTargets pk fs path maxBytes =
     (case ReadHead pk fs path maxBytes of
        (head, Some err) \<Rightarrow> Inl err
      | (head, None) \<Rightarrow> Inr (parseMakeTargets_loop (Split head NL) []))"

text \<open>
  The loop of \<^verbatim>\<open>parseDecision\<close>, with its two variables: a title line takes the
  \<^verbatim>\<open>continue\<close>, any other line may set the summary, and the loop breaks at the end
  of an iteration that finds both set.
\<close>

fun parseDecision_loop :: "string list \<Rightarrow> string \<Rightarrow> string \<Rightarrow> string \<times> string" where
  "parseDecision_loop [] title summary = (title, summary)"
| "parseDecision_loop (line # lns) title summary =
     (let trim = TrimSpace line
      in if HasPrefix trim ''# '' \<and> title = []
         then parseDecision_loop lns (TrimPrefix trim ''# '') summary
         else (let summary' = (if summary = [] \<and> trim \<noteq> [] \<and> \<not> HasPrefix trim ''#''
                               then trim else summary)
               in if title \<noteq> [] \<and> summary' \<noteq> [] then (title, summary')
                  else parseDecision_loop lns title summary'))"

definition parseDecision :: "files_pkg \<Rightarrow> filesys \<Rightarrow> string \<Rightarrow> int \<Rightarrow> io_error + Decision" where
  "parseDecision pk fs path maxBytes =
     (case ReadHead pk fs path maxBytes of
        (head, Some err) \<Rightarrow> Inl err
      | (head, None) \<Rightarrow>
          (let r = parseDecision_loop (Split head NL) [] []
           in Inr \<lparr>Decision_File = path, Decision_Title = fst r, Decision_Summary = snd r\<rparr>))"


record ReadmeSummary =
  ReadmeSummary_File :: string
  ReadmeSummary_Title :: string
  FirstPara :: string
  Objective :: string

fun readme_title :: "string list \<Rightarrow> string" where
  "readme_title [] = []"
| "readme_title (line # lns) =
     (let trim = TrimSpace line
      in if HasPrefix trim ''# '' then TrimSpace (TrimPrefix trim ''# '')
         else readme_title lns)"

fun readme_firstPara :: "string list \<Rightarrow> string" where
  "readme_firstPara [] = []"
| "readme_firstPara (line # lns) =
     (let trim = TrimSpace line
      in if trim = [] \<or> HasPrefix trim ''#'' then readme_firstPara lns
         else if HasPrefix trim ''- '' \<or> HasPrefix trim ''* '' \<or> HasPrefix trim ''>''
                 \<or> HasPrefix trim [CHR 0x60]
         then readme_firstPara lns
         else trim)"

text \<open>The inner loop of \<^verbatim>\<open>findSection\<close>: up to three content lines below the heading.\<close>

fun section_lines :: "string list \<Rightarrow> string list \<Rightarrow> string list" where
  "section_lines [] buf = buf"
| "section_lines (line # lns) buf =
     (if length buf < 3
      then (let t = TrimSpace line
            in if t = [] \<or> HasPrefix t ''#'' then section_lines lns buf
               else if HasPrefix t ''- '' \<or> HasPrefix t ''* ''
               then section_lines lns (buf @ [TrimPrefix (TrimPrefix t ''- '') ''* ''])
               else section_lines lns (buf @ [t]))
      else buf)"

fun findSection :: "string list \<Rightarrow> string list \<Rightarrow> string" where
  "findSection names [] = []"
| "findSection names (line # lns) =
     (let trim = TrimSpace line
      in if HasPrefix trim ''##''
         then (let name = TrimSpace (TrimSpace (TrimLeft trim ''#''))
               in if list_ex (EqualFold name) names then Join (section_lines lns []) '' ''
                  else findSection names lns)
         else findSection names lns)"

text \<open>The closure \<^verbatim>\<open>limit\<close>; the ellipsis is three bytes in UTF-8.\<close>

definition limit :: "string \<Rightarrow> nat \<Rightarrow> string" where
  "limit s n =
     (let s1 = ReplaceAll s (CHR 0x0D) (CHR '' '');
          s2 = ReplaceAll s1 (CHR 0x0A) (CHR '' '');
          s3 = TrimSpace s2
      in if length s3 > n then take n s3 @ [CHR 0xE2, CHR 0x80, CHR 0xA6] else s3)"

definition parseReadmeSummary :: "files_pkg \<Rightarrow> filesys \<Rightarrow> string \<Rightarrow> int \<Rightarrow> io_error + ReadmeSummary" where
  "parseReadmeSummary pk fs path maxBytes =
     (case ReadHead pk fs path maxBytes of
        (head, Some err) \<Rightarrow> Inl err
      | (head, None) \<Rightarrow>
          (let lns = Split head NL;
               title = readme_title lns;
               firstPara = readme_firstPara lns;
               objective = findSection [''Objetivo'', ''Objective'', ''Goals''] lns
           in Inr \<lparr>ReadmeSummary_File = path,
                    ReadmeSummary_Title = limit title 120,
                    FirstPara = limit firstPara 400,
                    Objective = limit objective 400\<rparr>))"

text \<open>
  Statement counts are Go \<^verbatim>\<open>int\<close>s read from the text of a profile, so they can
  overflow: they are 64-bit words, compared as signed numbers.
\<close>

type_synonym go_int = "64 word"

fun atoiSafe_loop :: "string \<Rightarrow> go_int \<Rightarrow> go_int" where
  "atoiSafe_loop [] n = n"
| "atoiSafe_loop (r # rs) n =
     (if r < CHR ''0'' \<or> r > CHR ''9'' then n
      else atoiSafe_loop rs (n * 10 + of_nat (of_char r - of_char (CHR ''0''))))"

definition atoiSafe :: "string \<Rightarrow> go_int" where
  "atoiSafe s = atoiSafe_loop s 0"

fun parseGoCoverProfile_loop :: "string list \<Rightarrow> go_int \<times> go_int \<Rightarrow> go_int \<times> go_int" where
  "parseGoCoverProfile_loop [] acc = acc"
| "parseGoCoverProfile_loop (line # lns) acc =
     (let line' = TrimSpace line
      in if line' = [] \<or> HasPrefix line' ''mode:'' then parseGoCoverProfile_loop lns acc
         else (let parts = Fields line'
               in if length parts < 3 then parseGoCoverProfile_loop lns acc
                  else (let numStmts = atoiSafe (parts ! 1);
                            cnt = atoiSafe (parts ! 2);
                            tot = fst acc + numStmts;
                            covered = (if 0 <s cnt then snd acc + numStmts else snd acc)
                        in parseGoCoverProfile_loop lns (tot, covered))))"

definition parseGoCoverProfile :: "filesys \<Rightarrow> string \<Rightarrow> go_int \<times> go_int" where
  "parseGoCoverProfile fs path =
     (case os_ReadFile fs path of
        Inl err \<Rightarrow> (0, 0)
      | Inr data \<Rightarrow> parseGoCoverProfile_loop (Split data NL) (0, 0))"

text \<open>
  What \<^verbatim>\<open>encoding/json\<close> decodes for \<^verbatim>\<open>parseCucumberJSON\<close>: features, their
  elements, and per element its type and its steps (a step has no fields).
\<close>

record element =
  el_Steps :: "unit list"
  el_Type :: string

record feature =
  Elements :: "element list"

text \<open>
  The libraries the scanner rests on, as parameters: \<open>Match g name\<close> is the boolean of
  \<^verbatim>\<open>filepath.Match(g, name)\<close>; \<open>CompileIgnoreLines\<close> turns the lines of an ignore
  file into the predicate \<^verbatim>\<open>MatchesPath\<close> of the compiled object;
  \<open>Unmarshal_array\<close> and \<open>Unmarshal_root\<close> are \<^verbatim>\<open>json.Unmarshal\<close> into a list of
  features and into an object with a \<^verbatim>\<open>features\<close> field (\<open>None\<close> when it returns
  an error); \<open>Now\<close> is the clock and \<open>NumCPU\<close> the number of processors.
\<close>

record golib =
  Match :: "string \<Rightarrow> string \<Rightarrow> bool"
  CompileIgnoreLines :: "string list \<Rightarrow> string \<Rightarrow> bool"
  Unmarshal_array :: "string \<Rightarrow> feature list option"
  Unmarshal_root :: "string \<Rightarrow> feature list option"
  Now :: nat
  NumCPU :: int

fun count_elements :: "element list \<Rightarrow> int \<times> int \<Rightarrow> int \<times> int" where
  "count_elements [] acc = acc"
| "count_elements (el # els) acc =
     (let scenarios = (if EqualFold (el_Type el) ''scenario'' \<or> el_Type el = []
                       then fst acc + 1 else fst acc);
          steps = snd acc + int (length (el_Steps el))
      in count_elements els (scenarios, steps))"

fun count_features :: "feature list \<Rightarrow> int \<times> int \<times> int \<Rightarrow> int \<times> int \<times> int" where
  "count_features [] acc = acc"
| "count_features (f # fs) acc =
     (let r = count_elements (Elements f) (fst (snd acc), snd (snd acc))
      in count_features fs (fst acc + 1, fst r, snd r))"

definition parseCucumberJSON :: "golib \<Rightarrow> filesys \<Rightarrow> string \<Rightarrow> int \<times> int \<times> int" where
  "parseCucumberJSON L fs path =
     (case os_ReadFile fs path of
        Inl err \<Rightarrow> (0, 0, 0)
      | Inr data \<Rightarrow>
          (if length data = 0 then (0, 0, 0)
           else (case Unmarshal_array L data of
                   Some arr \<Rightarrow> count_features arr (0, 0, 0)
                 | None \<Rightarrow>
                     (case Unmarshal_root L data of
                        None \<Rightarrow> (0, 0, 0)
                      | Some arr \<Rightarrow> count_features arr (0, 0, 0)))))"

section \<open>The ignore matcher\<close>

text \<open>
  A compiled ignore file is its predicate \<^verbatim>\<open>MatchesPath\<close>.
  \<^verbatim>\<open>CompileIgnoreFile\<close> reads the file and compiles its lines.
\<close>

record GitIgnoreMatcher =
  ignores :: "(string \<Rightarrow> bool) list"

definition CompileIgnoreFile :: "golib \<Rightarrow> filesys \<Rightarrow> string \<Rightarrow> io_error + (string \<Rightarrow> bool)" where
  "CompileIgnoreFile L fs path =
     (case os_ReadFile fs path of
        Inl err \<Rightarrow> Inl err
      | Inr data \<Rightarrow> Inr (CompileIgnoreLines L (Split data NL)))"

text \<open>
  \<^verbatim>\<open>NewGitIgnoreMatcher\<close>: \<^verbatim>\<open>filepath.Walk\<close> visits the root and every entry
  below it, a directory before its entries, the entries in the order of the listing.  The
  listing of a directory (\<^verbatim>\<open>os.ReadDir\<close>) is sorted by name: the entries of a
  \<open>Dir\<close> stand in that order.  A directory that cannot be listed is walked as an empty
  one, so it is a \<open>Dir []\<close> here.
\<close>

fun ignore_files :: "golib \<Rightarrow> filesys \<Rightarrow> string \<Rightarrow> string \<Rightarrow> node \<Rightarrow> (string \<Rightarrow> bool) list"
  and ignore_files_in :: "golib \<Rightarrow> filesys \<Rightarrow> string \<Rightarrow> (string \<times> node) list \<Rightarrow> (string \<Rightarrow> bool) list" where
  "ignore_files L fs path name n =
     (if HasSuffix name ''.gitignore''
      then (case CompileIgnoreFile L fs path of Inr g \<Rightarrow> [g] | Inl e \<Rightarrow> [])
      else [])
     @ (case n of Dir es \<Rightarrow> ignore_files_in L fs path es | _ \<Rightarrow> [])"
| "ignore_files_in L fs dir [] = []"
| "ignore_files_in L fs dir ((nm, n) # es) =
     ignore_files L fs (filepath_Join dir nm) nm n @ ignore_files_in L fs dir es"

definition NewGitIgnoreMatcher :: "golib \<Rightarrow> filesys \<Rightarrow> string \<Rightarrow> GitIgnoreMatcher" where
  "NewGitIgnoreMatcher L fs rootdir =
     \<lparr>ignores = (case resolve fs rootdir of
                    None \<Rightarrow> []
                  | Some n \<Rightarrow> ignore_files L fs rootdir (Base rootdir) n)\<rparr>"

fun Match_loop :: "(string \<Rightarrow> bool) list \<Rightarrow> string \<Rightarrow> bool" where
  "Match_loop [] path = False"
| "Match_loop (ig # igs) path = (if ig path then True else Match_loop igs path)"

definition GitIgnoreMatcher_Match :: "GitIgnoreMatcher \<Rightarrow> string \<Rightarrow> bool" where
  "GitIgnoreMatcher_Match g path = Match_loop (ignores g) path"


section \<open>Package \<^verbatim>\<open>collect\<close>: the scan\<close>

record Config =
  Root :: string
  MaxFileBytes :: int
  Threads :: int
  IncludeGlobsCSV :: string
  ExcludeGlobsCSV :: string
  TreeDepth :: int

text \<open>
  Counts of files and of decoded features are bounded by what the machine holds, so they
  are plain integers; the percentage is a \<^verbatim>\<open>float64\<close>, modelled as a real number
  (the rounding of the division is not modelled).
\<close>

record BDDSum =
  FeatureFiles :: int
  Reports :: "string list"
  Features :: int
  Scenarios :: int
  Steps :: int

record CoverageSummary =
  Sources :: "string list"
  TotalStmts :: go_int
  CoveredStmts :: go_int
  Percent :: real
  HasGoProfile :: bool
  BDD :: BDDSum

record Summary =
  Summary_Root :: string
  GeneratedAt :: nat
  GoModules :: "GoModule list"
  Proto :: "ProtoInfo list"
  MakeTargets :: "string list"
  Dockerfiles :: "string list"
  SQLMigrations :: "string list"
  Decisions :: "Decision list"
  EnvExamples :: "string list"
  Licenses :: "string list"
  Readmes :: "string list"
  ReadmeSummaries :: "string \<rightharpoonup> ReadmeSummary"
  TechStats :: "string \<rightharpoonup> int"
  Tree :: "string list"
  NotableConfigs :: "string list"
  TestCoverage :: "CoverageSummary option"

fun splitCSV_loop :: "string list \<Rightarrow> string list \<Rightarrow> string list" where
  "splitCSV_loop [] out = out"
| "splitCSV_loop (p # parts) out =
     (let p' = TrimSpace p
      in if p' \<noteq> [] then splitCSV_loop parts (out @ [p']) else splitCSV_loop parts out)"

definition splitCSV :: "string \<Rightarrow> string list" where
  "splitCSV s = (if TrimSpace s = [] then [] else splitCSV_loop (Split s (CHR '','')) [])"

subsection \<open>Phase 1: the walk\<close>

text \<open>
  \<^verbatim>\<open>filepath.WalkDir\<close> calls the function of \<^verbatim>\<open>Scan\<close> on the root, then on
  every entry in the order of the listings, a directory before its entries, and leaves
  out the entries of a directory for which the function returns \<^verbatim>\<open>SkipDir\<close>.
  The function never returns another error, so neither does the walk: the early return
  of \<^verbatim>\<open>Scan\<close> on an error of the walk is never taken, and \<open>Scan\<close> is a total
  function to \<open>Summary\<close>.  \<open>rel_child dir nm\<close> is the slash-separated path, relative
  to the root, of the entry \<open>nm\<close> of the directory at \<open>dir\<close> (\<open>[]\<close> for the root
  itself, whose own relative path is the dot and which the function passes over).
\<close>

definition rel_child :: "string \<Rightarrow> string \<Rightarrow> string" where
  "rel_child dir nm = (if dir = [] then nm else dir @ ''/'' @ nm)"

fun walk_node :: "files_pkg \<Rightarrow> golib \<Rightarrow> GitIgnoreMatcher \<Rightarrow> string list \<Rightarrow> string list
      \<Rightarrow> string \<Rightarrow> node \<Rightarrow> string list"
  and walk_entries :: "files_pkg \<Rightarrow> golib \<Rightarrow> GitIgnoreMatcher \<Rightarrow> string list \<Rightarrow> string list
      \<Rightarrow> string \<Rightarrow> (string \<times> node) list \<Rightarrow> string list" where
  "walk_node pk L matcher includeGlobs excludeGlobs rel (Dir es) =
     (if GitIgnoreMatcher_Match matcher rel then []
      else if MatchAny pk (Match L) excludeGlobs (rel @ ''/'') then []
      else walk_entries pk L matcher includeGlobs excludeGlobs rel es)"
| "walk_node pk L matcher includeGlobs excludeGlobs rel (Regular d e) =
     (if GitIgnoreMatcher_Match matcher rel then []
      else if MatchAny pk (Match L) excludeGlobs rel \<and> \<not> MatchAny pk (Match L) includeGlobs rel then []
      else [rel])"
| "walk_node pk L matcher includeGlobs excludeGlobs rel (Locked e) =
     (if GitIgnoreMatcher_Match matcher rel then []
      else if MatchAny pk (Match L) excludeGlobs rel \<and> \<not> MatchAny pk (Match L) includeGlobs rel then []
      else [rel])"
| "walk_entries pk L matcher includeGlobs excludeGlobs dir [] = []"
| "walk_entries pk L matcher includeGlobs excludeGlobs dir ((nm, n) # es) =
     walk_node pk L matcher includeGlobs excludeGlobs (rel_child dir nm) n
     @ walk_entries pk L matcher includeGlobs excludeGlobs dir es"

definition WalkDir :: "files_pkg \<Rightarrow> golib \<Rightarrow> filesys \<Rightarrow> GitIgnoreMatcher \<Rightarrow> string list \<Rightarrow> string list
      \<Rightarrow> string \<Rightarrow> string list" where
  "WalkDir pk L fs matcher includeGlobs excludeGlobs rootdir =
     (case resolve fs rootdir of
        Some (Dir es) \<Rightarrow> walk_entries pk L matcher includeGlobs excludeGlobs [] es
      | _ \<Rightarrow> [])"

text \<open>The candidate paths of a scan: what phase 1 leaves in \<^verbatim>\<open>paths\<close>.\<close>

definition candidates :: "files_pkg \<Rightarrow> golib \<Rightarrow> filesys \<Rightarrow> Config \<Rightarrow> string list" where
  "candidates pk L fs cfg =
     WalkDir pk L fs (NewGitIgnoreMatcher L fs (Root cfg))
       (splitCSV (IncludeGlobsCSV cfg))
       (DefaultIgnore @ splitCSV (ExcludeGlobsCSV cfg))
       (Root cfg)"

subsection \<open>Phase 2: the workers\<close>

definition CoverageSummary_zero :: CoverageSummary where
  "CoverageSummary_zero =
     \<lparr>Sources = [], TotalStmts = 0, CoveredStmts = 0, Percent = 0, HasGoProfile = False,
      BDD = \<lparr>FeatureFiles = 0, Reports = [], Features = 0, Scenarios = 0, Steps = 0\<rparr>\<rparr>"

definition coverage_or_new :: "Summary \<Rightarrow> CoverageSummary" where
  "coverage_or_new s = (case TestCoverage s of None \<Rightarrow> CoverageSummary_zero | Some tc \<Rightarrow> tc)"

text \<open>The \<^verbatim>\<open>switch\<close> of a worker: the first case that holds decides.\<close>

definition classify :: "files_pkg \<Rightarrow> filesys \<Rightarrow> Config \<Rightarrow> string \<Rightarrow> Summary \<Rightarrow> Summary" where
  "classify pk fs cfg p s =
     (let full = filepath_Join (Root cfg) p;
          lower = ToLower p
      in if HasSuffix lower ''go.mod''
         then (case parseGoMod fs full of
                 Inr gm \<Rightarrow> s\<lparr>GoModules := GoModules s @ [gm]\<rparr>
               | Inl err \<Rightarrow> s)
         else if HasSuffix lower ''.proto''
         then (case parseProto pk fs full (MaxFileBytes cfg) of
                 Inr pinfo \<Rightarrow> s\<lparr>Proto := Proto s @ [pinfo]\<rparr>
               | Inl err \<Rightarrow> s)
         else if Base lower = ''makefile'' \<or> HasSuffix lower ''.mk''
         then (case parseMakeTargets pk fs full (MaxFileBytes cfg) of
                 Inr ts \<Rightarrow> s\<lparr>MakeTargets := MakeTargets s @ ts\<rparr>
               | Inl err \<Rightarrow> s)
         else if HasSuffix lower ''dockerfile'' \<or> HasPrefix (Base lower) ''dockerfile.''
         then s\<lparr>Dockerfiles := Dockerfiles s @ [p]\<rparr>
         else if HasSuffix lower ''.sql''
         then (if Contains lower ''migrat'' \<or> Contains lower ''schema''
               then s\<lparr>SQLMigrations := SQLMigrations s @ [p]\<rparr>
               else s)
         else if HasSuffix lower ''.md''
                 \<and> (Contains lower ''/docs/decisions/'' \<or> Contains lower ''/adr'')
         then (case parseDecision pk fs full (MaxFileBytes cfg) of
                 Inr dec \<Rightarrow> s\<lparr>Decisions := Decisions s @ [dec]\<rparr>
               | Inl err \<Rightarrow> s)
         else if HasSuffix lower ''.env'' \<or> HasSuffix lower ''.env.example''
                 \<or> HasSuffix lower ''.sample''
         then s\<lparr>EnvExamples := EnvExamples s @ [p]\<rparr>
         else if Contains lower ''license''
         then s\<lparr>Licenses := Licenses s @ [p]\<rparr>
         else if Base lower = ''readme.md''
         then (case parseReadmeSummary pk fs full (MaxFileBytes cfg) of
                 Inr rs \<Rightarrow> s\<lparr>Readmes := Readmes s @ [p],
                             ReadmeSummaries := (ReadmeSummaries s)(p \<mapsto> rs)\<rparr>
               | Inl err \<Rightarrow> s\<lparr>Readmes := Readmes s @ [p]\<rparr>)
         else if HasSuffix lower ''.feature''
         then (let tc = coverage_or_new s
               in s\<lparr>TestCoverage :=
                      Some (tc\<lparr>BDD := (BDD tc)\<lparr>FeatureFiles := FeatureFiles (BDD tc) + 1\<rparr>\<rparr>)\<rparr>)
         else if Base lower = ''coverage.out'' \<or> HasSuffix lower ''.coverprofile''
                 \<or> HasSuffix lower ''coverage.txt''
         then (let tc = coverage_or_new s
               in s\<lparr>TestCoverage := Some (tc\<lparr>Sources := Sources tc @ [p]\<rparr>)\<rparr>)
         else if HasSuffix lower ''.json''
                 \<and> (Contains lower ''cucumber'' \<or> Contains lower ''godog'')
         then (let tc = coverage_or_new s
               in s\<lparr>TestCoverage := Some (tc\<lparr>BDD := (BDD tc)\<lparr>Reports := Reports (BDD tc) @ [p]\<rparr>\<rparr>)\<rparr>)
         else if HasSuffix lower ''.xml''
                 \<and> (Contains lower ''junit'' \<or> Contains lower ''cucumber'')
         then (let tc = coverage_or_new s
               in s\<lparr>TestCoverage := Some (tc\<lparr>BDD := (BDD tc)\<lparr>Reports := Reports (BDD tc) @ [p]\<rparr>\<rparr>)\<rparr>)
         else s)"

text \<open>The end of a worker: one more file under its extension.  A key that is not in a Go map reads as zero.\<close>

definition tech_stats :: "string \<Rightarrow> Summary \<Rightarrow> Summary" where
  "tech_stats p s =
     (let lower = ToLower p;
          ext = Ext lower;
          ext' = (if ext = [] \<and> Contains lower ''dockerfile'' then ''.dockerfile'' else ext)
      in s\<lparr>TechStats := (TechStats s)(ext' \<mapsto> (case TechStats s ext' of None \<Rightarrow> 0 | Some c \<Rightarrow> c) + 1)\<rparr>)"

definition worker :: "files_pkg \<Rightarrow> filesys \<Rightarrow> Config \<Rightarrow> Summary \<Rightarrow> string \<Rightarrow> Summary" where
  "worker pk fs cfg s p = tech_stats p (classify pk fs cfg p s)"

text \<open>
  The loop of \<^verbatim>\<open>Scan\<close> starts one worker per candidate path until it sees the
  context cancelled: \<open>ctx = None\<close> is a context that is never cancelled, \<open>ctx = Some k\<close>
  one that the loop finds cancelled when it comes to the path of index \<open>k\<close>.
  The workers run concurrently and change the summary only while they hold the one
  mutex, a worker first for its case of the switch and then for the histogram.  The
  first section never touches the histogram and the second touches nothing else, so
  every interleaving leaves the summary that the workers leave when they run one after
  the other in the order in which they took the mutex for the first time.  That order is
  the parameter \<open>sched\<close>: it maps the paths that were dispatched to the order in which
  their workers merge.  What the scheduler may do is permute them.
\<close>

text \<open>
  At most \<open>semaphore_size\<close> workers run at a time (the capacity of the channel that
  serves as semaphore); this narrows the orders that can occur and has no other effect
  on the summary.
\<close>

definition semaphore_size :: "golib \<Rightarrow> Config \<Rightarrow> int" where
  "semaphore_size L cfg = (if Threads cfg \<le> 0 then NumCPU L else Threads cfg)"

definition dispatched :: "nat option \<Rightarrow> string list \<Rightarrow> string list" where
  "dispatched ctx paths = (case ctx of None \<Rightarrow> paths | Some k \<Rightarrow> take k paths)"

definition run_workers :: "files_pkg \<Rightarrow> filesys \<Rightarrow> Config \<Rightarrow> string list \<Rightarrow> Summary \<Rightarrow> Summary" where
  "run_workers pk fs cfg order s = foldl (worker pk fs cfg) s order"

subsection \<open>Phase 3: coverage, tree, sorting\<close>

fun sum_profiles :: "filesys \<Rightarrow> string list \<Rightarrow> go_int \<times> go_int \<Rightarrow> go_int \<times> go_int" where
  "sum_profiles fs [] acc = acc"
| "sum_profiles fs (path # paths) acc =
     (let r = parseGoCoverProfile fs path
      in sum_profiles fs paths (fst acc + fst r, snd acc + snd r))"

fun sum_reports :: "golib \<Rightarrow> filesys \<Rightarrow> string \<Rightarrow> string list \<Rightarrow> int \<times> int \<times> int \<Rightarrow> int \<times> int \<times> int" where
  "sum_reports L fs rootdir [] acc = acc"
| "sum_reports L fs rootdir (rel # rels) acc =
     (let r = parseCucumberJSON L fs (filepath_Join rootdir rel)
      in sum_reports L fs rootdir rels
           (fst acc + fst r, fst (snd acc) + fst (snd r), snd (snd acc) + snd (snd r)))"

definition is_go_profile :: "string \<Rightarrow> bool" where
  "is_go_profile src =
     (let low = ToLower src
      in HasSuffix low ''coverage.out'' \<or> HasSuffix low ''.coverprofile''
         \<or> HasSuffix low ''coverage.txt'')"

definition consolidate_go :: "filesys \<Rightarrow> Config \<Rightarrow> CoverageSummary \<Rightarrow> CoverageSummary" where
  "consolidate_go fs cfg tc =
     (let goSources = map (filepath_Join (Root cfg)) (filter is_go_profile (Sources tc))
      in if length goSources > 0
         then (let r = sum_profiles fs goSources (0, 0)
               in if 0 <s fst r
                  then tc\<lparr>HasGoProfile := True,
                          TotalStmts := fst r,
                          CoveredStmts := snd r,
                          Percent := real_of_int (sint (snd r)) * 100 / real_of_int (sint (fst r))\<rparr>
                  else tc)
         else tc)"

definition consolidate_bdd :: "golib \<Rightarrow> filesys \<Rightarrow> Config \<Rightarrow> CoverageSummary \<Rightarrow> CoverageSummary" where
  "consolidate_bdd L fs cfg tc =
     (if length (Reports (BDD tc)) > 0
      then (let r = sum_reports L fs (Root cfg) (Reports (BDD tc)) (0, 0, 0)
            in if fst r + fst (snd r) + snd (snd r) > 0
               then tc\<lparr>BDD := (BDD tc)\<lparr>Features := fst r,
                                        Scenarios := fst (snd r),
                                        Steps := snd (snd r)\<rparr>\<rparr>
               else tc)
      else tc)"

definition consolidate :: "golib \<Rightarrow> filesys \<Rightarrow> Config \<Rightarrow> Summary \<Rightarrow> Summary" where
  "consolidate L fs cfg s =
     (case TestCoverage s of
        None \<Rightarrow> s
      | Some tc \<Rightarrow> s\<lparr>TestCoverage := Some (consolidate_bdd L fs cfg (consolidate_go fs cfg tc))\<rparr>)"

datatype treeNode = TreeNode (Name: string) (IsDir: bool) (Children: "treeNode list")

fun tree_walk :: "files_pkg \<Rightarrow> golib \<Rightarrow> GitIgnoreMatcher \<Rightarrow> string list
      \<Rightarrow> string \<Rightarrow> string \<Rightarrow> nat \<Rightarrow> (string \<times> node) list \<Rightarrow> treeNode"
  and tree_entries :: "files_pkg \<Rightarrow> golib \<Rightarrow> GitIgnoreMatcher \<Rightarrow> string list
      \<Rightarrow> string \<Rightarrow> nat \<Rightarrow> (string \<times> node) list \<Rightarrow> treeNode list" where
  "tree_walk pk L matcher exclude name dir d es =
     TreeNode name True
       (if d = 0 then [] else sort_key Name (tree_entries pk L matcher exclude dir (d - 1) es))"
| "tree_entries pk L matcher exclude dir d [] = []"
| "tree_entries pk L matcher exclude dir d ((nm, Dir sub) # es) =
     (if HasPrefix nm ''.'' \<and> nm \<noteq> ''.github'' then tree_entries pk L matcher exclude dir d es
      else if GitIgnoreMatcher_Match matcher (rel_child dir nm)
      then tree_entries pk L matcher exclude dir d es
      else if MatchAny pk (Match L) exclude (rel_child dir nm @ ''/'')
      then tree_entries pk L matcher exclude dir d es
      else tree_walk pk L matcher exclude nm (rel_child dir nm) d sub
           # tree_entries pk L matcher exclude dir d es)"
| "tree_entries pk L matcher exclude dir d ((nm, Regular dt e) # es) =
     (if HasPrefix nm ''.'' \<and> nm \<noteq> ''.github'' then tree_entries pk L matcher exclude dir d es
      else if GitIgnoreMatcher_Match matcher (rel_child dir nm)
      then tree_entries pk L matcher exclude dir d es
      else if MatchAny pk (Match L) exclude (rel_child dir nm)
      then tree_entries pk L matcher exclude dir d es
      else TreeNode nm False [] # tree_entries pk L matcher exclude dir d es)"
| "tree_entries pk L matcher exclude dir d ((nm, Locked e) # es) =
     (if HasPrefix nm ''.'' \<and> nm \<noteq> ''.github'' then tree_entries pk L matcher exclude dir d es
      else if GitIgnoreMatcher_Match matcher (rel_child dir nm)
      then tree_entries pk L matcher exclude dir d es
      else if MatchAny pk (Match L) exclude (rel_child dir nm)
      then tree_entries pk L matcher exclude dir d es
      else TreeNode nm False [] # tree_entries pk L matcher exclude dir d es)"

fun render :: "treeNode \<Rightarrow> string \<Rightarrow> string list" where
  "render (TreeNode name isdir children) pfx =
     (pfx @ name) # concat (map (\<lambda>c. render c (pfx @ ''  '')) children)"

definition buildTree :: "files_pkg \<Rightarrow> golib \<Rightarrow> filesys \<Rightarrow> string \<Rightarrow> int \<Rightarrow> string list \<Rightarrow> string list" where
  "buildTree pk L fs rootdir depth exclude =
     (let matcher = NewGitIgnoreMatcher L fs rootdir;
          depth' = (if depth \<le> 0 then 3 else depth);
          es = (case resolve fs rootdir of Some (Dir es) \<Rightarrow> es | _ \<Rightarrow> [])
      in render (tree_walk pk L matcher exclude (Base rootdir) [] (nat depth') es) [])"

text \<open>
  \<^verbatim>\<open>sort.Strings\<close> leaves the one sorted arrangement of a list of strings.
  \<^verbatim>\<open>sort.Slice\<close> on the modules is any sort by \<open>Path\<close>; here it is the insertion
  sort by that key.
\<close>

definition sort_outputs :: "Summary \<Rightarrow> Summary" where
  "sort_outputs s =
     s\<lparr>GoModules := sort_key Path (GoModules s),
       MakeTargets := sort (MakeTargets s),
       Dockerfiles := sort (Dockerfiles s),
       SQLMigrations := sort (SQLMigrations s),
       EnvExamples := sort (EnvExamples s),
       Licenses := sort (Licenses s),
       Readmes := sort (Readmes s)\<rparr>"

definition Summary_new :: "golib \<Rightarrow> Config \<Rightarrow> Summary" where
  "Summary_new L cfg =
     \<lparr>Summary_Root = Root cfg, GeneratedAt = Now L,
      GoModules = [], Proto = [], MakeTargets = [], Dockerfiles = [], SQLMigrations = [],
      Decisions = [], EnvExamples = [], Licenses = [], Readmes = [],
      ReadmeSummaries = Map.empty, TechStats = Map.empty,
      Tree = [], NotableConfigs = [], TestCoverage = None\<rparr>"

definition Scan :: "files_pkg \<Rightarrow> golib \<Rightarrow> filesys \<Rightarrow> nat option \<Rightarrow> (string list \<Rightarrow> string list)
      \<Rightarrow> Config \<Rightarrow> Summary" where
  "Scan pk L fs ctx sched cfg =
     (let excludeGlobs = DefaultIgnore @ splitCSV (ExcludeGlobsCSV cfg);
          paths = candidates pk L fs cfg;
          s1 = run_workers pk fs cfg (sched (dispatched ctx paths)) (Summary_new L cfg);
          s2 = consolidate L fs cfg s1;
          s3 = s2\<lparr>Tree := buildTree pk L fs (Root cfg) (TreeDepth cfg) excludeGlobs\<rparr>
      in sort_outputs s3)"

section \<open>Reference definitions and test trees\<close>

text \<open>
  The first title line and the first text line of a list of lines, by search: what the
  loop of \<^verbatim>\<open>parseDecision\<close> is compared with.  A title line starts, once trimmed,
  with one \<open>#\<close> and a space; a text line is not empty and does not start with \<open>#\<close>.
\<close>

definition is_title_line :: "string \<Rightarrow> bool" where
  "is_title_line t = HasPrefix t ''# ''"

definition is_text_line :: "string \<Rightarrow> bool" where
  "is_text_line t = (t \<noteq> [] \<and> \<not> HasPrefix t ''#'')"

definition first_title :: "string list \<Rightarrow> string" where
  "first_title lns =
     (case find is_title_line (map TrimSpace lns) of None \<Rightarrow> [] | Some t \<Rightarrow> TrimPrefix t ''# '')"

definition first_text :: "string list \<Rightarrow> string" where
  "first_text lns =
     (case find is_text_line (map TrimSpace lns) of None \<Rightarrow> [] | Some t \<Rightarrow> t)"

text \<open>
  The summary as the specification words it: the first text line among the lines that
  come after the title line.
\<close>

definition spec_summary :: "string list \<Rightarrow> string" where
  "spec_summary lns =
     (case find is_text_line (drop 1 (dropWhile (\<lambda>t. \<not> is_title_line t) (map TrimSpace lns))) of
        None \<Rightarrow> []
      | Some t \<Rightarrow> t)"

text \<open>Two manifests: requirements in a parenthesised block, and on one line.\<close>

definition fs_manifest :: filesys where
  "fs_manifest =
     \<lparr>mount = ''/r'',
      top = Dir [(''go.mod'',
                  Regular ''module example.com/app\<newline>require (\<newline>  github.com/x v1.0.0\<newline>)\<newline>'' EOF),
                 (''tools'',
                  Dir [(''go.mod'',
                        Regular ''module example.com/tools\<newline>require github.com/x v1.0.0\<newline>'' EOF)])]\<rparr>"

text \<open>A decision record with a line of text above its title.\<close>

definition fs_decision :: filesys where
  "fs_decision =
     \<lparr>mount = ''/r'',
      top = Dir [(''docs'',
                  Dir [(''adr'',
                        Dir [(''0001.md'', Regular ''intro\<newline># T\<newline>body\<newline>'' EOF)])])]\<rparr>"

text \<open>
  For running the scanner: \<open>glob\<close> for \<^verbatim>\<open>filepath.Match\<close>; for the ignore library
  a stand-in that knows rules without wildcards, where a path is ignored when a line of
  the ignore file spells it out; a JSON decoder that rejects every input (the trees below
  hold no such reports); and the command's default flags for the root \<open>/r\<close>.
\<close>

definition lib_glob :: golib where
  "lib_glob =
     \<lparr>Match = glob,
      CompileIgnoreLines = (\<lambda>lns p. p \<noteq> [] \<and> List.member lns p),
      Unmarshal_array = (\<lambda>data. None),
      Unmarshal_root = (\<lambda>data. None),
      Now = 0,
      NumCPU = 4\<rparr>"

definition cfg_r :: Config where
  "cfg_r =
     \<lparr>Root = ''/r'', MaxFileBytes = 64 * 1024, Threads = 4,
      IncludeGlobsCSV = [], ExcludeGlobsCSV = [], TreeDepth = 3\<rparr>"

text \<open>
  A tree with an ignore file that names a file and a directory, an image, and a source
  file; and the flags with include globs for the ignored file and for images.
\<close>

definition fs_ignored :: filesys where
  "fs_ignored =
     \<lparr>mount = ''/r'',
      top = Dir [(''.gitignore'', Regular ''secret.env\<newline>cache\<newline>'' EOF),
                 (''cache'', Dir [(''c.go'', Regular ''package c'' EOF)]),
                 (''img'', Dir [(''logo.png'', Regular ''PNG'' EOF)]),
                 (''main.go'', Regular ''package main'' EOF),
                 (''secret.env'', Regular ''KEY=1'' EOF)]\<rparr>"

definition cfg_include :: Config where
  "cfg_include = cfg_r\<lparr>IncludeGlobsCSV := ''secret.env, *.png, cache/*''\<rparr>"

text \<open>The sum of the counts of a histogram, over all its keys.\<close>

definition histogram_total :: "(string \<rightharpoonup> int) \<Rightarrow> int" where
  "histogram_total m = (\<Sum>k\<in>dom m. the (m k))"

text \<open>Two coverage profiles; a coverage profile with no data line.\<close>

definition fs_cover :: filesys where
  "fs_cover =
     \<lparr>mount = ''/r'',
      top = Dir [(''a.coverprofile'', Regular ''mode: set\<newline>a.go:1.1,2.2 3 1\<newline>'' EOF),
                 (''b.coverprofile'', Regular ''mode: set\<newline>b.go:1.1,2.2 5 0\<newline>'' EOF)]\<rparr>"

definition fs_cover_empty :: filesys where
  "fs_cover_empty =
     \<lparr>mount = ''/r'',
      top = Dir [(''coverage.out'', Regular ''mode: set\<newline>'' EOF)]\<rparr>"

text \<open>
  Two schema files, one in a directory whose name is the stem of the other, and two
  decision records.
\<close>

definition fs_unsorted :: filesys where
  "fs_unsorted =
     \<lparr>mount = ''/r'',
      top = Dir [(''api'', Dir [(''v1.proto'', Regular ''package api.v1;\<newline>'' EOF)]),
                 (''api.proto'', Regular ''package api;\<newline>'' EOF),
                 (''docs'',
                  Dir [(''adr'',
                        Dir [(''0001.md'', Regular ''# One\<newline>first\<newline>'' EOF),
                             (''0002.md'', Regular ''# Two\<newline>second\<newline>'' EOF)])])]\<rparr>"

text \<open>
  A tree with one file of each kind that an extractor reads, and a container file.
\<close>

definition fs_records :: filesys where
  "fs_records =
     \<lparr>mount = ''/r'',
      top = Dir [(''Dockerfile'', Regular ''FROM scratch\<newline>'' EOF),
                 (''README.md'', Regular ''# Demo\<newline>\<newline>A demo.\<newline>'' EOF),
                 (''api.proto'', Regular ''package api;\<newline>'' EOF),
                 (''docs'',
                  Dir [(''adr'', Dir [(''0001.md'', Regular ''# One\<newline>first\<newline>'' EOF)])]),
                 (''go.mod'', Regular ''module example.com/app\<newline>'' EOF)]\<rparr>"

text \<open>
  Where the paths of a summary come from, given the set \<open>P\<close> of candidate paths and the
  root: the plain lists of paths, the keys of the readme summaries and the sources and
  reports of the coverage summary (of the new, empty one when the summary has none) hold
  members of \<open>P\<close>; the records of the extractors hold a member of \<open>P\<close> joined to the
  root.
\<close>

definition paths_ok :: "string set \<Rightarrow> string \<Rightarrow> Summary \<Rightarrow> bool" where
  "paths_ok P rootdir s =
     (set (Dockerfiles s) \<subseteq> P \<and>
      set (SQLMigrations s) \<subseteq> P \<and>
      set (EnvExamples s) \<subseteq> P \<and>
      set (Licenses s) \<subseteq> P \<and>
      set (Readmes s) \<subseteq> P \<and>
      dom (ReadmeSummaries s) \<subseteq> P \<and>
      set (Sources (coverage_or_new s)) \<subseteq> P \<and>
      set (Reports (BDD (coverage_or_new s))) \<subseteq> P \<and>
      Path ` set (GoModules s) \<subseteq> filepath_Join rootdir ` P \<and>
      ProtoInfo_File ` set (Proto s) \<subseteq> filepath_Join rootdir ` P \<and>
      Decision_File ` set (Decisions s) \<subseteq> filepath_Join rootdir ` P \<and>
      ReadmeSummary_File ` ran (ReadmeSummaries s) \<subseteq> filepath_Join rootdir ` P)"

text \<open>
  Every module record in the summary is what \<open>parseGoMod\<close> returns for the path in the
  record, so a record is determined by its sort key and any sort by that key gives the
  same list.
\<close>

definition modules_read :: "filesys \<Rightarrow> Summary \<Rightarrow> bool" where
  "modules_read fs s = list_all (\<lambda>gm. parseGoMod fs (Path gm) = Inr gm) (GoModules s)"

definition module_at :: "filesys \<Rightarrow> string \<Rightarrow> GoModule" where
  "module_at fs full =
     (case parseGoMod fs full of
        Inr gm \<Rightarrow> gm
      | Inl e \<Rightarrow> \<lparr>Path = full, Module = [], Requires = []\<rparr>)"

section \<open>The head read in closed form\<close>

text \<open>
  Both loops of \<open>ReadHead\<close> return the first \<open>maxBytes\<close> bytes of the stream, or the
  whole stream when it is shorter, in which case the error that ends the stream comes
  back unless it is the end of the file.  The closed forms serve as code equations.
\<close>

lemma ReadHead_1_loop_done:
  "\<not> tot < maxBytes \<Longrightarrow> ReadHead_1_loop maxBytes d e tot b = (b, None)"
  by (subst ReadHead_1_loop.simps) simp

lemma ReadHead_1_loop_step:
  assumes "tot < maxBytes"
    and "k = (if maxBytes - tot < 32 * 1024 then maxBytes - tot else 32 * 1024)"
  shows "ReadHead_1_loop maxBytes d e tot b =
     (if k \<le> int (length d)
      then ReadHead_1_loop maxBytes (drop (nat k) d) e (tot + k) (b @ take (nat k) d)
      else (b @ d, if e = EOF \<or> e = ErrUnexpectedEOF then None else Some e))"
proof (cases "k \<le> int (length d)")
  case True
  then have le: "nat k \<le> length d" by linarith
  have kpos: "0 < k" using assms by (auto split: if_splits)
  have rf: "ReadFull d e (nat k) = (take (nat k) d, None)"
    using le by (simp add: ReadFull_def)
  have len: "length (take (nat k) d) = nat k" using le by simp
  show ?thesis
    apply (subst ReadHead_1_loop.simps)
    apply (simp only: Let_def assms(2)[symmetric] rf fst_conv snd_conv len)
    using assms(1) kpos True by simp
next
  case False
  then have le: "\<not> nat k \<le> length d" by linarith
  have rf: "ReadFull d e (nat k) =
      (d, Some (if e = EOF then (if d = [] then EOF else ErrUnexpectedEOF) else e))"
    using le by (simp add: ReadFull_def)
  show ?thesis
    apply (subst ReadHead_1_loop.simps)
    apply (simp only: Let_def assms(2)[symmetric] rf fst_conv snd_conv)
    using assms(1) False by (cases e) auto
qed

lemma ReadHead_1_loop_eq:
  "tot \<le> maxBytes \<Longrightarrow>
   ReadHead_1_loop maxBytes d e tot b =
     (if maxBytes - tot \<le> int (length d) then (b @ take (nat (maxBytes - tot)) d, None)
      else (b @ d, if e = EOF \<or> e = ErrUnexpectedEOF then None else Some e))"
proof (induction "nat (maxBytes - tot)" arbitrary: tot d b rule: less_induct)
  case less
  show ?case
  proof (cases "tot < maxBytes")
    case False
    with less.prems have "tot = maxBytes" by simp
    then show ?thesis by (simp add: ReadHead_1_loop_done)
  next
    case True
    define k where "k = (if maxBytes - tot < 32 * 1024 then maxBytes - tot else 32 * 1024)"
    have kpos: "0 < k" and kle: "k \<le> maxBytes - tot" using True by (auto simp: k_def)
    note step = ReadHead_1_loop_step[OF True k_def, of d e b]
    show ?thesis
    proof (cases "k \<le> int (length d)")
      case False
      then show ?thesis using step kle by simp
    next
      case full: True
      have ih: "ReadHead_1_loop maxBytes (drop (nat k) d) e (tot + k) (b @ take (nat k) d) =
         (if maxBytes - (tot + k) \<le> int (length (drop (nat k) d))
          then ((b @ take (nat k) d) @ take (nat (maxBytes - (tot + k))) (drop (nat k) d), None)
          else ((b @ take (nat k) d) @ drop (nat k) d,
                if e = EOF \<or> e = ErrUnexpectedEOF then None else Some e))"
        by (rule less.hyps) (use kpos kle True in linarith)+
      have tk: "take (nat k) d @ take (nat (maxBytes - (tot + k))) (drop (nat k) d)
                = take (nat (maxBytes - tot)) d"
      proof -
        have "nat (maxBytes - tot) = nat k + nat (maxBytes - (tot + k))"
          using kpos kle by linarith
        then show ?thesis by (simp add: take_add)
      qed
      have cond: "(maxBytes - (tot + k) \<le> int (length (drop (nat k) d)))
                  = (maxBytes - tot \<le> int (length d))"
      proof -
        have "int (length (drop (nat k) d)) = int (length d) - k"
          using full kpos by simp
        then show ?thesis by linarith
      qed
      have "ReadHead_1_loop maxBytes d e tot b =
            ReadHead_1_loop maxBytes (drop (nat k) d) e (tot + k) (b @ take (nat k) d)"
        using step full by simp
      also have "\<dots> = (if maxBytes - tot \<le> int (length d)
            then (b @ take (nat (maxBytes - tot)) d, None)
            else (b @ d, if e = EOF \<or> e = ErrUnexpectedEOF then None else Some e))"
        unfolding ih cond using tk by simp
      finally show ?thesis .
    qed
  qed
qed

lemma ReadHead_2_loop_done:
  "cap \<le> n \<Longrightarrow> ReadHead_2_loop cap d e n b = (b, None)"
  by (subst ReadHead_2_loop.simps) simp

lemma ReadHead_2_loop_end:
  "n < cap \<Longrightarrow> ReadHead_2_loop cap [] e n b = (b, if e = EOF then None else Some e)"
  by (subst ReadHead_2_loop.simps) (simp add: Read_def Let_def)

lemma ReadHead_2_loop_step:
  assumes "n < cap" and "d \<noteq> []"
    and "k = (if cap - n < 4096 then cap - n else 4096)"
  shows "ReadHead_2_loop cap d e n b =
     ReadHead_2_loop cap (drop (nat k) d) e (n + int (length (take (nat k) d))) (b @ take (nat k) d)"
proof -
  have kpos: "0 < k" using assms by (auto split: if_splits)
  have rd: "Read d e (nat k) = (take (nat k) d, None)"
    using assms(2) by (simp add: Read_def)
  have len: "0 < length (take (nat k) d)" using kpos assms(2) by (cases d) auto
  have dr: "drop (length (take (nat k) d)) d = drop (nat k) d"
    by (simp add: min_def)
  show ?thesis
    apply (subst ReadHead_2_loop.simps)
    apply (simp only: Let_def assms(3)[symmetric] rd fst_conv snd_conv dr)
    using assms(1) len by simp
qed

lemma ReadHead_2_loop_eq:
  "n \<le> cap \<Longrightarrow>
   ReadHead_2_loop cap d e n b =
     (if cap - n \<le> int (length d) then (b @ take (nat (cap - n)) d, None)
      else (b @ d, if e = EOF then None else Some e))"
proof (induction "nat (cap - n)" arbitrary: n d b rule: less_induct)
  case less
  show ?case
  proof (cases "n < cap")
    case False
    with less.prems have "n = cap" by simp
    then show ?thesis by (simp add: ReadHead_2_loop_done)
  next
    case True
    show ?thesis
    proof (cases "d = []")
      case True
      then show ?thesis using \<open>n < cap\<close> by (simp add: ReadHead_2_loop_end)
    next
      case ne: False
      define k where "k = (if cap - n < 4096 then cap - n else 4096)"
      define m where "m = int (length (take (nat k) d))"
      have kpos: "0 < k" and kle: "k \<le> cap - n" using True by (auto simp: k_def)
      have mpos: "0 < m" using kpos ne by (cases d) (auto simp: m_def)
      have mle: "m \<le> k" "m \<le> int (length d)" using kpos by (auto simp: m_def)
      have mk: "m = k \<or> m = int (length d)" using kpos by (auto simp: m_def min_def)
      note step = ReadHead_2_loop_step[OF True ne k_def, of e b, folded m_def]
      have ih: "ReadHead_2_loop cap (drop (nat k) d) e (n + m) (b @ take (nat k) d) =
         (if cap - (n + m) \<le> int (length (drop (nat k) d))
          then ((b @ take (nat k) d) @ take (nat (cap - (n + m))) (drop (nat k) d), None)
          else ((b @ take (nat k) d) @ drop (nat k) d, if e = EOF then None else Some e))"
        by (rule less.hyps) (use mpos mle kle True in linarith)+
      show ?thesis
      proof (cases "k \<le> int (length d)")
        case full: True
        then have meq: "m = k" using kpos by (simp add: m_def)
        have tk: "take (nat k) d @ take (nat (cap - (n + k))) (drop (nat k) d)
                  = take (nat (cap - n)) d"
        proof -
          have "nat (cap - n) = nat k + nat (cap - (n + k))"
            using kpos kle by linarith
          then show ?thesis by (simp add: take_add)
        qed
        have cond: "(cap - (n + k) \<le> int (length (drop (nat k) d))) = (cap - n \<le> int (length d))"
        proof -
          have "int (length (drop (nat k) d)) = int (length d) - k"
            using full kpos by simp
          then show ?thesis by linarith
        qed
        show ?thesis
          unfolding step ih unfolding meq cond using tk by simp
      next
        case short: False
        then have meq: "m = int (length d)" using kpos by (simp add: m_def)
        have tk: "take (nat k) d = d" "drop (nat k) d = []" using short by auto
        have c1: "\<not> cap - (n + m) \<le> int (length (drop (nat k) d))"
          using short kle meq tk by simp
        have c2: "\<not> cap - n \<le> int (length d)" using short kle by linarith
        show ?thesis
          unfolding step ih using c1 c2 tk by simp
      qed
    qed
  qed
qed

lemma ReadHead_1_eq:
  "ReadHead_1 fs p maxBytes =
     (case os_Open fs p of
        Inl err \<Rightarrow> ([], Some err)
      | Inr (d, e) \<Rightarrow>
          (if maxBytes \<le> 0 then ([], None)
           else if maxBytes \<le> int (length d) then (take (nat maxBytes) d, None)
           else (d, if e = EOF \<or> e = ErrUnexpectedEOF then None else Some e)))"
  by (simp add: ReadHead_1_def ReadHead_1_loop_eq split: sum.splits prod.splits)

lemma ReadHead_2_eq:
  "ReadHead_2 fs p cap =
     (case os_Open fs p of
        Inl err \<Rightarrow> ([], Some err)
      | Inr (d, e) \<Rightarrow>
          (if cap \<le> 0 then ([], None)
           else if cap \<le> int (length d) then (take (nat cap) d, None)
           else (d, if e = EOF then None else Some e)))"
  by (auto simp: ReadHead_2_def ReadHead_2_loop_eq ReadHead_2_loop_done split: sum.splits prod.splits)

declare ReadHead_1_eq [code]

declare ReadHead_2_eq [code]

section \<open>Package \<^verbatim>\<open>files\<close>: the claims\<close>

text \<open>
  C10, as amended.  With a byte cap that is zero or negative, \<open>ReadHead\<close> (either
  variant) returns the empty string and no error for every path that opens, also when
  the file behind it is readable and not empty.  For a path that does not open it
  returns the empty string together with the error of the open, whatever the cap.
\<close>

theorem ReadHead_nonpositive_cap:
  "(maxBytes \<le> 0 \<longrightarrow>
      ReadHead_1 fs p maxBytes
        = (case os_Open fs p of Inl err \<Rightarrow> ([], Some err) | Inr st \<Rightarrow> ([], None)) \<and>
      ReadHead_2 fs p maxBytes
        = (case os_Open fs p of Inl err \<Rightarrow> ([], Some err) | Inr st \<Rightarrow> ([], None))) \<and>
   (os_Open fs p = Inl err \<longrightarrow>
      ReadHead_1 fs p cap = ([], Some err) \<and> ReadHead_2 fs p cap = ([], Some err))"
  by (simp add: ReadHead_1_eq ReadHead_2_eq split: sum.splits prod.splits)

text \<open>
  A readable file of 58 bytes, read with the cap \<open>-1\<close>; a path that names no file, read
  with the cap 10.
\<close>

theorem ReadHead_nonpositive_cap_witness:
  "os_Open fs_manifest ''/r/tools/go.mod''
     = Inr (''module example.com/tools\<newline>require github.com/x v1.0.0\<newline>'', EOF) \<and>
   ReadHead_1 fs_manifest ''/r/tools/go.mod'' (- 1) = ([], None) \<and>
   ReadHead_2 fs_manifest ''/r/tools/go.mod'' (- 1) = ([], None) \<and>
   os_Open fs_manifest ''/r/missing'' = Inl ErrNotExist \<and>
   ReadHead_1 fs_manifest ''/r/missing'' 10 = ([], Some ErrNotExist) \<and>
   ReadHead_2 fs_manifest ''/r/missing'' 10 = ([], Some ErrNotExist)"
proof -
  have o: "os_Open fs_manifest ''/r/tools/go.mod''
     = Inr (''module example.com/tools\<newline>require github.com/x v1.0.0\<newline>'', EOF)"
    by code_simp
  have m: "os_Open fs_manifest ''/r/missing'' = Inl ErrNotExist"
    by code_simp
  have h: "(- 1 :: int) \<le> 0" by simp
  note t1 = ReadHead_nonpositive_cap
      [where maxBytes = "- 1" and fs = fs_manifest and p = "''/r/tools/go.mod''"]
  note t2 = ReadHead_nonpositive_cap
      [where fs = fs_manifest and p = "''/r/missing''" and err = ErrNotExist and cap = 10]
  show ?thesis
    using t1 t2 h o m by simp
qed

text \<open>
  The claim as it stands speaks of every path: a path that names no file gets the error
  of the open, with the cap at zero.
\<close>

theorem ReadHead_missing_counterexample:
  "ReadHead_1 fs_manifest ''/r/missing'' 0 = ([], Some ErrNotExist) \<and>
   ReadHead_2 fs_manifest ''/r/missing'' 0 = ([], Some ErrNotExist)"
  by code_simp




section \<open>The extractors: the claims\<close>

text \<open>
  C1.  The manifest of the claim: a module line, then a requirement block in
  parentheses with one requirement.  \<open>parseGoMod\<close> finds the module and no requirement:
  the line that opens the block is cut down to nothing, and the lines inside the block
  start with neither keyword.
\<close>

theorem parseGoMod_block_require:
  "parseGoMod fs_manifest ''/r/go.mod''
     = Inr \<lparr>Path = ''/r/go.mod'', Module = ''example.com/app'', Requires = []\<rparr>"
  by code_simp

text \<open>The same requirement on one line is found.\<close>

lemma parseGoMod_line_require:
  "parseGoMod fs_manifest ''/r/tools/go.mod''
     = Inr \<lparr>Path = ''/r/tools/go.mod'', Module = ''example.com/tools'',
             Requires = [''github.com/x'']\<rparr>"
  by code_simp

lemma TrimRightSpace_done: "space_suffix (TrimRightSpace s) = 0"
proof (induction s rule: TrimRightSpace.induct)
  case (1 s)
  show ?case
  proof (cases "space_suffix s = 0")
    case True
    then show ?thesis by (subst TrimRightSpace.simps) simp
  next
    case False
    with "1.IH" show ?thesis by (subst TrimRightSpace.simps) simp
  qed
qed

lemma HasPrefix_append: "HasPrefix s (p @ q) \<Longrightarrow> HasPrefix s p"
proof -
  assume "HasPrefix s (p @ q)"
  then have "take (length (p @ q)) s = p @ q" by (simp add: HasPrefix_def)
  then have "take (length p) (take (length (p @ q)) s) = take (length p) (p @ q)" by simp
  then show ?thesis by (simp add: HasPrefix_def min_def)
qed

lemma HasPrefix_Nil: "\<not> HasPrefix [] (c # cs)"
  by (simp add: HasPrefix_def)

text \<open>A title that was found is not empty, so an empty title means that none was found yet.\<close>

lemma title_nonempty:
  assumes "HasPrefix (TrimSpace l) ''# ''"
  shows "TrimPrefix (TrimSpace l) ''# '' \<noteq> []"
proof
  assume e: "TrimPrefix (TrimSpace l) ''# '' = []"
  from assms have t: "take 2 (TrimSpace l) = ''# ''" by (simp add: HasPrefix_def numeral_2_eq_2)
  from e assms have "drop 2 (TrimSpace l) = []" by (simp add: TrimPrefix_def numeral_2_eq_2)
  with t have "TrimSpace l = ''# ''" by (metis append_take_drop_id append_Nil2)
  moreover have "space_suffix (TrimSpace l) = 0"
    unfolding TrimSpace_def by (rule TrimRightSpace_done)
  moreover have "space_suffix ''# '' = 1" by (simp add: space_suffix_def isSpace_def)
  ultimately show False by simp
qed

lemma parseDecision_loop_eq:
  "parseDecision_loop lns t s =
     (if t \<noteq> [] then t else first_title lns, if s \<noteq> [] then s else first_text lns)"
proof (induction lns arbitrary: t s)
  case Nil
  show ?case by (simp add: first_title_def first_text_def)
next
  case (Cons l lns)
  show ?case
  proof (cases "HasPrefix (TrimSpace l) ''# ''")
    case True
    then have h: "HasPrefix (TrimSpace l) ''#''"
      using HasPrefix_append[of "TrimSpace l" "''#''" "'' ''"] by simp
    from True have ne: "TrimPrefix (TrimSpace l) ''# '' \<noteq> []" by (rule title_nonempty)
    show ?thesis using True h ne
      by (simp add: Cons.IH Let_def first_title_def first_text_def is_title_line_def is_text_line_def)
  next
    case False
    then show ?thesis
      by (simp add: Cons.IH Let_def first_title_def first_text_def is_title_line_def is_text_line_def
            HasPrefix_Nil)
  qed
qed

lemma find_append_Some: "find P xs = Some x \<Longrightarrow> find P (xs @ ys) = Some x"
  by (induction xs) (auto split: if_splits)

lemma first_title_append: "first_title lns \<noteq> [] \<Longrightarrow> first_title (lns @ extra) = first_title lns"
  by (auto simp: first_title_def find_append_Some split: option.splits)

lemma first_text_append: "first_text lns \<noteq> [] \<Longrightarrow> first_text (lns @ extra) = first_text lns"
  by (auto simp: first_text_def find_append_Some split: option.splits)

text \<open>
  C7, as amended.  For every text that the head read delivers, \<open>parseDecision\<close> sets the
  title to what follows the marker in the first line that starts, once trimmed, with one
  \<open>#\<close> and a space, and sets the summary to the first trimmed line of the whole text that
  is not empty and does not start with \<open>#\<close>, whether that line stands before or after
  the title line; each is empty when there is no such line.  Once both are found, lines
  that follow do not change the result.
\<close>

theorem parseDecision_extracts:
  "ReadHead pk fs path maxBytes = (head, None) \<Longrightarrow>
   parseDecision pk fs path maxBytes
     = Inr \<lparr>Decision_File = path,
             Decision_Title = first_title (Split head NL),
             Decision_Summary = first_text (Split head NL)\<rparr> \<and>
   (first_title (Split head NL) \<noteq> [] \<and> first_text (Split head NL) \<noteq> [] \<longrightarrow>
    parseDecision_loop (Split head NL @ extra) [] [] = parseDecision_loop (Split head NL) [] [])"
  by (auto simp: parseDecision_def parseDecision_loop_eq first_title_append first_text_append)

theorem parseDecision_extracts_witness:
  "ReadHead files_2 fs_decision ''/r/docs/adr/0001.md'' 65536
     = (''intro\<newline># T\<newline>body\<newline>'', None) \<and>
   parseDecision files_2 fs_decision ''/r/docs/adr/0001.md'' 65536
     = Inr \<lparr>Decision_File = ''/r/docs/adr/0001.md'', Decision_Title = ''T'',
             Decision_Summary = ''intro''\<rparr> \<and>
   parseDecision_loop (Split ''intro\<newline># T\<newline>body\<newline>'' NL @ [''# other'', ''tail'']) [] []
     = parseDecision_loop (Split ''intro\<newline># T\<newline>body\<newline>'' NL) [] []"
proof -
  have r: "ReadHead files_2 fs_decision ''/r/docs/adr/0001.md'' 65536
      = (''intro\<newline># T\<newline>body\<newline>'', None)"
    by code_simp
  have t: "first_title (Split ''intro\<newline># T\<newline>body\<newline>'' NL) = ''T''"
    by code_simp
  have b: "first_text (Split ''intro\<newline># T\<newline>body\<newline>'' NL) = ''intro''"
    by code_simp
  show ?thesis
    using parseDecision_extracts [OF r, of "[''# other'', ''tail'']"] r t b by simp
qed

text \<open>
  White space that is not ASCII is trimmed too: a no-break space before the marker does
  not hide the title.
\<close>

lemma parseDecision_no_break_space:
  "parseDecision_loop (Split ([CHR 0xC2, CHR 0xA0] @ ''# T\<newline>body\<newline>'') NL) [] [] = (''T'', ''body'')"
  by code_simp

text \<open>
  The claim as it stands takes the summary from the lines after the title line.  On a
  record that opens with a line of text the code takes that line, the claim the line
  below the title.
\<close>

theorem parseDecision_summary_counterexample:
  "parseDecision files_2 fs_decision ''/r/docs/adr/0001.md'' 65536
     = Inr \<lparr>Decision_File = ''/r/docs/adr/0001.md'', Decision_Title = ''T'',
             Decision_Summary = ''intro''\<rparr> \<and>
   spec_summary (Split ''intro\<newline># T\<newline>body\<newline>'' NL) = ''body''"
  by code_simp

section \<open>The walk: the claims\<close>

lemma Match_loop_iff: "Match_loop igs path = (\<exists>ig\<in>set igs. ig path)"
  by (induction igs) auto

lemma walk_not_ignored:
  "(\<forall>p\<in>set (walk_node pk L matcher inc exc rel n). \<not> GitIgnoreMatcher_Match matcher p)"
  "(\<forall>p\<in>set (walk_entries pk L matcher inc exc dir es). \<not> GitIgnoreMatcher_Match matcher p)"
  by (induction pk L matcher inc exc rel n and pk L matcher inc exc dir es
      rule: walk_node_walk_entries.induct) auto

lemma walk_node_ignored:
  "GitIgnoreMatcher_Match matcher rel \<Longrightarrow> walk_node pk L matcher inc exc rel n = []"
  by (cases n) simp_all

lemma candidates_not_ignored:
  "p \<in> set (candidates pk L fs cfg) \<Longrightarrow>
   \<not> GitIgnoreMatcher_Match (NewGitIgnoreMatcher L fs (Root cfg)) p"
  using walk_not_ignored(2)
  by (auto simp: candidates_def WalkDir_def split: option.splits node.splits)


text \<open>
  C9.  A path is ignored by the matcher exactly when the rules of some ignore file loaded
  under the root match it.  An entry whose relative path is ignored contributes nothing to
  the candidate list, whatever the include globs are: a file is left out and a directory
  is pruned with everything below it.  So no candidate path is ignored.  The include
  globs decide only for a file that is not ignored: it is left out exactly when an
  exclude glob (default or of the user) matches it and no include glob does.
\<close>

theorem gitignore_overrides_include:
  "GitIgnoreMatcher_Match matcher rel = (\<exists>ig\<in>set (ignores matcher). ig rel) \<and>
   (GitIgnoreMatcher_Match matcher rel \<longrightarrow> walk_node pk L matcher inc exc rel n = []) \<and>
   (p \<in> set (candidates pk L fs cfg) \<longrightarrow>
      \<not> GitIgnoreMatcher_Match (NewGitIgnoreMatcher L fs (Root cfg)) p) \<and>
   (\<not> GitIgnoreMatcher_Match matcher rel \<longrightarrow>
      walk_node pk L matcher inc exc rel (Regular d e)
        = (if MatchAny pk (Match L) exc rel \<and> \<not> MatchAny pk (Match L) inc rel then [] else [rel]))"
proof (intro conjI impI)
  show "GitIgnoreMatcher_Match matcher rel = (\<exists>ig\<in>set (ignores matcher). ig rel)"
    by (simp add: GitIgnoreMatcher_Match_def Match_loop_iff)
  show "walk_node pk L matcher inc exc rel n = []" if "GitIgnoreMatcher_Match matcher rel"
    using that by (rule walk_node_ignored)
  show "\<not> GitIgnoreMatcher_Match (NewGitIgnoreMatcher L fs (Root cfg)) p"
    if "p \<in> set (candidates pk L fs cfg)"
    using that by (rule candidates_not_ignored)
  show "walk_node pk L matcher inc exc rel (Regular d e)
        = (if MatchAny pk (Match L) exc rel \<and> \<not> MatchAny pk (Match L) inc rel then [] else [rel])"
    if "\<not> GitIgnoreMatcher_Match matcher rel"
    using that by simp
qed

text \<open>
  The ignored file \<open>secret.env\<close> matches an include glob and is left out; the ignored
  directory \<open>cache\<close> is pruned although an include glob matches the file in it; the
  image, which is not ignored, is excluded by default and kept by its include glob.
\<close>

theorem gitignore_overrides_include_witness:
  "GitIgnoreMatcher_Match (NewGitIgnoreMatcher lib_glob fs_ignored ''/r'') ''secret.env'' \<and>
   MatchAny files_2 glob [''secret.env'', ''*.png'', ''cache/*''] ''secret.env'' \<and>
   walk_node files_2 lib_glob (NewGitIgnoreMatcher lib_glob fs_ignored ''/r'')
       [''secret.env'', ''*.png'', ''cache/*''] DefaultIgnore ''secret.env'' (Regular ''KEY=1'' EOF) = [] \<and>
   GitIgnoreMatcher_Match (NewGitIgnoreMatcher lib_glob fs_ignored ''/r'') ''cache'' \<and>
   walk_node files_2 lib_glob (NewGitIgnoreMatcher lib_glob fs_ignored ''/r'')
       [''secret.env'', ''*.png'', ''cache/*''] DefaultIgnore ''cache''
       (Dir [(''c.go'', Regular ''package c'' EOF)]) = [] \<and>
   candidates files_2 lib_glob fs_ignored cfg_include = [''.gitignore'', ''img/logo.png'', ''main.go''] \<and>
   \<not> GitIgnoreMatcher_Match (NewGitIgnoreMatcher lib_glob fs_ignored (Root cfg_include)) ''img/logo.png'' \<and>
   MatchAny files_2 glob DefaultIgnore ''img/logo.png'' \<and>
   MatchAny files_2 glob [''secret.env'', ''*.png'', ''cache/*''] ''img/logo.png'' \<and>
   walk_node files_2 lib_glob (NewGitIgnoreMatcher lib_glob fs_ignored ''/r'')
       [''secret.env'', ''*.png'', ''cache/*''] DefaultIgnore ''img/logo.png'' (Regular ''PNG'' EOF)
     = [''img/logo.png'']"
proof -
  let ?m = "NewGitIgnoreMatcher lib_glob fs_ignored ''/r''"
  let ?inc = "[''secret.env'', ''*.png'', ''cache/*'']"
  have g1: "GitIgnoreMatcher_Match ?m ''secret.env''" by code_simp
  have g2: "GitIgnoreMatcher_Match ?m ''cache''" by code_simp
  have g3: "\<not> GitIgnoreMatcher_Match ?m ''img/logo.png''" by code_simp
  have i1: "MatchAny files_2 glob ?inc ''secret.env''" by code_simp
  have i3: "MatchAny files_2 glob ?inc ''img/logo.png''" by code_simp
  have e3: "MatchAny files_2 glob DefaultIgnore ''img/logo.png''" by code_simp
  have c: "candidates files_2 lib_glob fs_ignored cfg_include = [''.gitignore'', ''img/logo.png'', ''main.go'']"
    by code_simp
  have r: "Root cfg_include = ''/r''" by code_simp
  have ml: "Match lib_glob = glob" by (simp add: lib_glob_def)
  note t1 = gitignore_overrides_include
      [where matcher = ?m and rel = "''secret.env''" and pk = files_2 and L = lib_glob
         and inc = ?inc and exc = DefaultIgnore and n = "Regular ''KEY=1'' EOF"]
  note t2 = gitignore_overrides_include
      [where matcher = ?m and rel = "''cache''" and pk = files_2 and L = lib_glob
         and inc = ?inc and exc = DefaultIgnore and n = "Dir [(''c.go'', Regular ''package c'' EOF)]"]
  note t3 = gitignore_overrides_include
      [where matcher = ?m and rel = "''img/logo.png''" and pk = files_2 and L = lib_glob
         and inc = ?inc and exc = DefaultIgnore and d = "''PNG''" and e = EOF
         and p = "''img/logo.png''" and fs = fs_ignored and cfg = cfg_include]
  have w1: "walk_node files_2 lib_glob ?m ?inc DefaultIgnore ''secret.env'' (Regular ''KEY=1'' EOF) = []"
    using t1 g1 by blast
  have w2: "walk_node files_2 lib_glob ?m ?inc DefaultIgnore ''cache''
       (Dir [(''c.go'', Regular ''package c'' EOF)]) = []"
    using t2 g2 by blast
  have w3: "walk_node files_2 lib_glob ?m ?inc DefaultIgnore ''img/logo.png'' (Regular ''PNG'' EOF)
       = (if MatchAny files_2 (Match lib_glob) DefaultIgnore ''img/logo.png''
             \<and> \<not> MatchAny files_2 (Match lib_glob) ?inc ''img/logo.png''
          then [] else [''img/logo.png''])"
    using t3 g3 by blast
  have w4: "\<not> GitIgnoreMatcher_Match (NewGitIgnoreMatcher lib_glob fs_ignored (Root cfg_include)) ''img/logo.png''"
    using t3 c by simp
  show ?thesis
    using g1 i1 w1 g2 w2 c w4 e3 i3 w3 by (simp only: ml simp_thms if_False if_True)
qed

section \<open>The extension histogram\<close>

lemma histogram_total_bump:
  assumes "finite (dom m)"
  shows "histogram_total (m(k \<mapsto> (case m k of None \<Rightarrow> 0 | Some c \<Rightarrow> c) + 1)) = histogram_total m + 1"
proof (cases "m k")
  case None
  then have nk: "k \<notin> dom m" by (simp add: domIff)
  have g: "(case m k of None \<Rightarrow> 0 | Some c \<Rightarrow> c) + 1 = (1::int)" using None by simp
  have d: "dom (m(k \<mapsto> 1)) = insert k (dom m)" by simp
  have "(\<Sum>j\<in>insert k (dom m). the ((m(k \<mapsto> 1)) j))
        = the ((m(k \<mapsto> 1)) k) + (\<Sum>j\<in>dom m. the ((m(k \<mapsto> 1)) j))"
    using assms nk by (rule sum.insert)
  also have "(\<Sum>j\<in>dom m. the ((m(k \<mapsto> 1)) j)) = (\<Sum>j\<in>dom m. the (m j))"
    using nk by (intro sum.cong) auto
  also have "the ((m(k \<mapsto> 1)) k) = 1" by simp
  finally have A: "(\<Sum>j\<in>insert k (dom m). the ((m(k \<mapsto> 1)) j)) = 1 + (\<Sum>j\<in>dom m. the (m j))" .
  show ?thesis unfolding histogram_total_def g d A by simp
next
  case (Some c)
  then have ik: "k \<in> dom m" by (simp add: domIff)
  have g: "(case m k of None \<Rightarrow> 0 | Some c \<Rightarrow> c) + 1 = c + 1" using Some by simp
  have d: "dom (m(k \<mapsto> c + 1)) = dom m" using ik by auto
  have r1: "(\<Sum>j\<in>dom m. the ((m(k \<mapsto> c + 1)) j))
        = the ((m(k \<mapsto> c + 1)) k) + (\<Sum>j\<in>dom m - {k}. the ((m(k \<mapsto> c + 1)) j))"
    using assms ik by (rule sum.remove)
  have r2: "(\<Sum>j\<in>dom m - {k}. the ((m(k \<mapsto> c + 1)) j)) = (\<Sum>j\<in>dom m - {k}. the (m j))"
    by (intro sum.cong) auto
  have r3: "(\<Sum>j\<in>dom m. the (m j)) = the (m k) + (\<Sum>j\<in>dom m - {k}. the (m j))"
    using assms ik by (rule sum.remove)
  show ?thesis unfolding histogram_total_def g d r1 r2 r3 using Some by simp
qed

lemma classify_TechStats: "TechStats (classify pk fs cfg p s) = TechStats s"
  unfolding classify_def Let_def
  by (simp add: if_distrib[where f=TechStats] sum.case_distrib[where h=TechStats]
        split del: if_split cong: if_cong sum.case_cong)

lemma worker_TechStats:
  "finite (dom (TechStats s)) \<Longrightarrow>
   finite (dom (TechStats (worker pk fs cfg s p))) \<and>
   histogram_total (TechStats (worker pk fs cfg s p)) = histogram_total (TechStats s) + 1"
  by (simp add: worker_def tech_stats_def Let_def classify_TechStats histogram_total_bump)

lemma run_workers_TechStats:
  "finite (dom (TechStats s)) \<Longrightarrow>
   finite (dom (TechStats (run_workers pk fs cfg order s))) \<and>
   histogram_total (TechStats (run_workers pk fs cfg order s))
     = histogram_total (TechStats s) + int (length order)"
proof (induction order arbitrary: s)
  case Nil
  then show ?case by (simp add: run_workers_def)
next
  case (Cons p order)
  from worker_TechStats[OF Cons.prems, of pk fs cfg p]
  have f: "finite (dom (TechStats (worker pk fs cfg s p)))"
    and t: "histogram_total (TechStats (worker pk fs cfg s p)) = histogram_total (TechStats s) + 1"
    by simp_all
  from Cons.IH[OF f] t show ?case by (simp add: run_workers_def)
qed

lemma consolidate_TechStats: "TechStats (consolidate L fs cfg s) = TechStats s"
  by (simp add: consolidate_def split: option.splits)

lemma sort_outputs_TechStats: "TechStats (sort_outputs s) = TechStats s"
  by (simp add: sort_outputs_def)

lemma Scan_TechStats:
  "TechStats (Scan pk L fs ctx sched cfg)
     = TechStats (run_workers pk fs cfg (sched (dispatched ctx (candidates pk L fs cfg))) (Summary_new L cfg))"
  by (simp add: Scan_def Let_def sort_outputs_TechStats consolidate_TechStats)

text \<open>
  C4.  When the scan is not cancelled and the scheduler permutes the candidate paths, the
  counts of the extension histogram of the summary add up to the number of candidate
  paths, the paths that came through the filters of the walk, however the files were
  classified.
\<close>

theorem TechStats_total:
  "mset (sched (candidates pk L fs cfg)) = mset (candidates pk L fs cfg) \<Longrightarrow>
   histogram_total (TechStats (Scan pk L fs None sched cfg)) = int (length (candidates pk L fs cfg))"
proof -
  assume perm: "mset (sched (candidates pk L fs cfg)) = mset (candidates pk L fs cfg)"
  have len: "length (sched (candidates pk L fs cfg)) = length (candidates pk L fs cfg)"
    using perm by (rule mset_eq_length)
  have e: "finite (dom (TechStats (Summary_new L cfg)))" "histogram_total (TechStats (Summary_new L cfg)) = 0"
    by (simp_all add: Summary_new_def histogram_total_def)
  show ?thesis
    using run_workers_TechStats[OF e(1), of pk fs cfg "sched (candidates pk L fs cfg)"] e(2) len
    by (simp add: Scan_TechStats dispatched_def)
qed

theorem TechStats_total_witness:
  "mset (rev (candidates files_2 lib_glob fs_ignored cfg_include))
     = mset (candidates files_2 lib_glob fs_ignored cfg_include) \<and>
   candidates files_2 lib_glob fs_ignored cfg_include = [''.gitignore'', ''img/logo.png'', ''main.go''] \<and>
   histogram_total (TechStats (Scan files_2 lib_glob fs_ignored None rev cfg_include)) = 3"
proof -
  have c: "candidates files_2 lib_glob fs_ignored cfg_include = [''.gitignore'', ''img/logo.png'', ''main.go'']"
    by code_simp
  have p: "mset (rev (candidates files_2 lib_glob fs_ignored cfg_include))
     = mset (candidates files_2 lib_glob fs_ignored cfg_include)" by simp
  show ?thesis
    using TechStats_total [where sched = rev and pk = files_2 and L = lib_glob
        and fs = fs_ignored and cfg = cfg_include] p c by simp
qed

section \<open>Coverage: the claims\<close>

lemma profiles_of_claim:
  "parseGoCoverProfile fs_cover ''/r/a.coverprofile'' = (3, 3) \<and>
   parseGoCoverProfile fs_cover ''/r/b.coverprofile'' = (5, 0)"
  by code_simp

text \<open>
  C5.  A tree with two coverage profiles, each with a mode header, one with the data
  line \<open>a.go:1.1,2.2 3 1\<close> and one with \<open>b.go:1.1,2.2 5 0\<close>: the scan reports 8
  statements, 3 of them covered, and 37.5 percent, in either order in which the two
  workers can merge and with either variant of package \<^verbatim>\<open>files\<close>.
\<close>

theorem coverage_two_profiles:
  "TestCoverage (Scan files_1 lib_glob fs_cover None id cfg_r)
     = Some \<lparr>Sources = [''a.coverprofile'', ''b.coverprofile''],
             TotalStmts = 8, CoveredStmts = 3, Percent = 37.5, HasGoProfile = True,
             BDD = \<lparr>FeatureFiles = 0, Reports = [], Features = 0, Scenarios = 0, Steps = 0\<rparr>\<rparr> \<and>
   TestCoverage (Scan files_1 lib_glob fs_cover None rev cfg_r)
     = Some \<lparr>Sources = [''b.coverprofile'', ''a.coverprofile''],
             TotalStmts = 8, CoveredStmts = 3, Percent = 37.5, HasGoProfile = True,
             BDD = \<lparr>FeatureFiles = 0, Reports = [], Features = 0, Scenarios = 0, Steps = 0\<rparr>\<rparr> \<and>
   TestCoverage (Scan files_2 lib_glob fs_cover None id cfg_r)
     = Some \<lparr>Sources = [''a.coverprofile'', ''b.coverprofile''],
             TotalStmts = 8, CoveredStmts = 3, Percent = 37.5, HasGoProfile = True,
             BDD = \<lparr>FeatureFiles = 0, Reports = [], Features = 0, Scenarios = 0, Steps = 0\<rparr>\<rparr> \<and>
   TestCoverage (Scan files_2 lib_glob fs_cover None rev cfg_r)
     = Some \<lparr>Sources = [''b.coverprofile'', ''a.coverprofile''],
             TotalStmts = 8, CoveredStmts = 3, Percent = 37.5, HasGoProfile = True,
             BDD = \<lparr>FeatureFiles = 0, Reports = [], Features = 0, Scenarios = 0, Steps = 0\<rparr>\<rparr>"
  by code_simp

text \<open>
  C6.  A tree whose one coverage profile holds the mode header and no data line: the
  profile is found and listed among the sources, and the flag stays false, because the
  code sets it only when the statements add up to more than zero.
\<close>

theorem coverage_flag_empty_profile:
  "TestCoverage (Scan files_1 lib_glob fs_cover_empty None id cfg_r)
     = Some \<lparr>Sources = [''coverage.out''],
             TotalStmts = 0, CoveredStmts = 0, Percent = 0, HasGoProfile = False,
             BDD = \<lparr>FeatureFiles = 0, Reports = [], Features = 0, Scenarios = 0, Steps = 0\<rparr>\<rparr> \<and>
   TestCoverage (Scan files_2 lib_glob fs_cover_empty None id cfg_r)
     = Some \<lparr>Sources = [''coverage.out''],
             TotalStmts = 0, CoveredStmts = 0, Percent = 0, HasGoProfile = False,
             BDD = \<lparr>FeatureFiles = 0, Reports = [], Features = 0, Scenarios = 0, Steps = 0\<rparr>\<rparr>"
  by code_simp

section \<open>Sorting: the claims\<close>

text \<open>
  C2.  \<open>Scan\<close> sorts the modules, the build targets and the five plain lists of paths;
  it does not sort the schema files and the decision records, which come back in the
  order in which the workers merged.  On this tree the schema files are out of order
  when the workers merge in the order of the walk, the decision records when they merge
  in the opposite order, and the two runs return different lists.
\<close>

theorem Proto_Decisions_unsorted:
  "map ProtoInfo_File (Proto (Scan files_1 lib_glob fs_unsorted None id cfg_r))
     = [''/r/api/v1.proto'', ''/r/api.proto''] \<and>
   \<not> sorted [''/r/api/v1.proto'', ''/r/api.proto''] \<and>
   map ProtoInfo_File (Proto (Scan files_1 lib_glob fs_unsorted None rev cfg_r))
     = [''/r/api.proto'', ''/r/api/v1.proto''] \<and>
   map Decision_File (Decisions (Scan files_1 lib_glob fs_unsorted None id cfg_r))
     = [''/r/docs/adr/0001.md'', ''/r/docs/adr/0002.md''] \<and>
   map Decision_File (Decisions (Scan files_1 lib_glob fs_unsorted None rev cfg_r))
     = [''/r/docs/adr/0002.md'', ''/r/docs/adr/0001.md''] \<and>
   \<not> sorted [''/r/docs/adr/0002.md'', ''/r/docs/adr/0001.md''] \<and>
   Proto (Scan files_2 lib_glob fs_unsorted None id cfg_r)
     = Proto (Scan files_1 lib_glob fs_unsorted None id cfg_r) \<and>
   Decisions (Scan files_2 lib_glob fs_unsorted None rev cfg_r)
     = Decisions (Scan files_1 lib_glob fs_unsorted None rev cfg_r)"
  by code_simp

section \<open>Stored paths: the claims\<close>

lemma paths_ok_if: "paths_ok P r a \<Longrightarrow> paths_ok P r b \<Longrightarrow> paths_ok P r (if c then a else b)"
  by simp

lemma paths_ok_case_sum:
  "(\<And>e. x = Inl e \<Longrightarrow> paths_ok P r (f e)) \<Longrightarrow> (\<And>v. x = Inr v \<Longrightarrow> paths_ok P r (g v)) \<Longrightarrow>
   paths_ok P r (case x of Inl e \<Rightarrow> f e | Inr v \<Rightarrow> g v)"
  by (cases x) simp_all

lemma parseGoMod_loop_Path: "Path (parseGoMod_loop lns gm) = Path gm"
  by (induction lns arbitrary: gm) (simp_all add: Let_def)

lemma parseGoMod_Path: "parseGoMod fs full = Inr gm \<Longrightarrow> Path gm = full"
  by (auto simp: parseGoMod_def parseGoMod_loop_Path split: sum.splits)

lemma parseProto_loop_File: "ProtoInfo_File (parseProto_loop lns pinfo) = ProtoInfo_File pinfo"
  by (induction lns arbitrary: pinfo) (simp_all add: Let_def)

lemma parseProto_File: "parseProto pk fs full mx = Inr pinfo \<Longrightarrow> ProtoInfo_File pinfo = full"
  by (auto simp: parseProto_def parseProto_loop_File split: prod.splits option.splits)

lemma parseDecision_File: "parseDecision pk fs full mx = Inr dec \<Longrightarrow> Decision_File dec = full"
  by (auto simp: parseDecision_def Let_def split: prod.splits option.splits)

lemma parseReadmeSummary_File:
  "parseReadmeSummary pk fs full mx = Inr rs \<Longrightarrow> ReadmeSummary_File rs = full"
  by (auto simp: parseReadmeSummary_def Let_def split: prod.splits option.splits)

lemma coverage_or_new_simps:
  "coverage_or_new (s\<lparr>TestCoverage := Some tc\<rparr>) = tc"
  "Sources CoverageSummary_zero = []"
  "Reports (BDD CoverageSummary_zero) = []"
  by (simp_all add: coverage_or_new_def CoverageSummary_zero_def)

lemma ran_upd_subset: "ran (m(k \<mapsto> v)) \<subseteq> insert v (ran m)"
  by (auto simp: ran_def)

lemma classify_paths_ok:
  assumes "paths_ok P (Root cfg) s" and "p \<in> P"
  shows "paths_ok P (Root cfg) (classify pk fs cfg p s)"
  unfolding classify_def Let_def
proof (intro paths_ok_if paths_ok_case_sum, goal_cases)
  case (1 e) show ?case using assms by simp
next
  case (2 gm) then show ?case using assms
    by (auto simp: paths_ok_def coverage_or_new_def dest!: parseGoMod_Path)
next
  case (3 e) show ?case using assms by simp
next
  case (4 pinfo) then show ?case using assms
    by (auto simp: paths_ok_def coverage_or_new_def dest!: parseProto_File)
next
  case (5 e) show ?case using assms by simp
next
  case (6 ts) then show ?case using assms
    by (auto simp: paths_ok_def coverage_or_new_def)
next
  case 7 show ?case using assms by (auto simp: paths_ok_def coverage_or_new_def)
next
  case 8 show ?case using assms by (auto simp: paths_ok_def coverage_or_new_def)
next
  case 9 show ?case using assms by simp
next
  case (10 e) show ?case using assms by simp
next
  case (11 dec) then show ?case using assms
    by (auto simp: paths_ok_def coverage_or_new_def dest!: parseDecision_File)
next
  case 12 show ?case using assms by (auto simp: paths_ok_def coverage_or_new_def)
next
  case 13 show ?case using assms by (auto simp: paths_ok_def coverage_or_new_def)
next
  case (14 e) show ?case using assms by (auto simp: paths_ok_def coverage_or_new_def)
next
  case (15 rs)
  then have f: "ReadmeSummary_File rs = filepath_Join (Root cfg) p" by (rule parseReadmeSummary_File)
  have "ran ((ReadmeSummaries s)(p \<mapsto> rs)) \<subseteq> insert rs (ran (ReadmeSummaries s))"
    by (rule ran_upd_subset)
  then have "ReadmeSummary_File ` ran ((ReadmeSummaries s)(p \<mapsto> rs))
      \<subseteq> insert (filepath_Join (Root cfg) p) (ReadmeSummary_File ` ran (ReadmeSummaries s))"
    using f by auto
  moreover have "ReadmeSummary_File ` ran (ReadmeSummaries s) \<subseteq> filepath_Join (Root cfg) ` P"
    using assms(1) by (simp add: paths_ok_def)
  ultimately have k: "ReadmeSummary_File ` ran ((ReadmeSummaries s)(p \<mapsto> rs))
      \<subseteq> filepath_Join (Root cfg) ` P"
    using assms(2) by blast
  show ?case using assms k by (simp add: paths_ok_def coverage_or_new_def)
next
  case 16 show ?case using assms by (auto simp: paths_ok_def coverage_or_new_simps)
next
  case 17 show ?case using assms by (auto simp: paths_ok_def coverage_or_new_simps)
next
  case 18 show ?case using assms by (auto simp: paths_ok_def coverage_or_new_simps)
next
  case 19 show ?case using assms by (auto simp: paths_ok_def coverage_or_new_simps)
next
  case 20 show ?case using assms by simp
qed


lemma tech_stats_paths_ok: "paths_ok P r s \<Longrightarrow> paths_ok P r (tech_stats p s)"
  by (simp add: paths_ok_def tech_stats_def Let_def coverage_or_new_def)

lemma run_workers_paths_ok:
  "paths_ok P (Root cfg) s \<Longrightarrow> set order \<subseteq> P \<Longrightarrow>
   paths_ok P (Root cfg) (run_workers pk fs cfg order s)"
proof (induction order arbitrary: s)
  case Nil
  then show ?case by (simp add: run_workers_def)
next
  case (Cons p order)
  then have "paths_ok P (Root cfg) (worker pk fs cfg s p)"
    by (simp add: worker_def tech_stats_paths_ok classify_paths_ok)
  with Cons show ?case by (simp add: run_workers_def)
qed

lemma consolidate_go_fields:
  "Sources (consolidate_go fs cfg tc) = Sources tc" "BDD (consolidate_go fs cfg tc) = BDD tc"
  by (simp_all add: consolidate_go_def Let_def)

lemma consolidate_bdd_fields:
  "Sources (consolidate_bdd L fs cfg tc) = Sources tc"
  "Reports (BDD (consolidate_bdd L fs cfg tc)) = Reports (BDD tc)"
  by (simp_all add: consolidate_bdd_def Let_def)

lemma consolidate_paths_ok: "paths_ok P r s \<Longrightarrow> paths_ok P r (consolidate L fs cfg s)"
  by (auto simp: consolidate_def paths_ok_def coverage_or_new_def consolidate_go_fields
        consolidate_bdd_fields split: option.splits)

lemma sort_outputs_paths_ok: "paths_ok P r s \<Longrightarrow> paths_ok P r (sort_outputs s)"
  by (simp add: paths_ok_def sort_outputs_def coverage_or_new_def)

lemma Tree_paths_ok: "paths_ok P r s \<Longrightarrow> paths_ok P r (s\<lparr>Tree := t\<rparr>)"
  by (simp add: paths_ok_def coverage_or_new_def)

lemma Summary_new_paths_ok: "paths_ok P r (Summary_new L cfg)"
  by (simp add: paths_ok_def Summary_new_def coverage_or_new_def CoverageSummary_zero_def)

lemma set_dispatched: "set (dispatched ctx paths) \<subseteq> set paths"
  by (auto simp: dispatched_def split: option.splits dest: in_set_takeD)

text \<open>
  Where the paths of the summary come from, when the scheduler permutes the dispatched
  paths: the plain lists, the keys of the readme summaries and the sources and reports of
  the coverage summary hold candidate paths, and the records of the extractors hold a
  candidate path joined to the root.
\<close>

lemma stored_paths:
  "mset (sched (dispatched ctx (candidates pk L fs cfg))) = mset (dispatched ctx (candidates pk L fs cfg)) \<Longrightarrow>
   paths_ok (set (candidates pk L fs cfg)) (Root cfg) (Scan pk L fs ctx sched cfg)"
proof -
  assume perm: "mset (sched (dispatched ctx (candidates pk L fs cfg)))
      = mset (dispatched ctx (candidates pk L fs cfg))"
  have "set (sched (dispatched ctx (candidates pk L fs cfg))) = set (dispatched ctx (candidates pk L fs cfg))"
    using perm by (rule mset_eq_setD)
  then have sub: "set (sched (dispatched ctx (candidates pk L fs cfg))) \<subseteq> set (candidates pk L fs cfg)"
    using set_dispatched by blast
  show ?thesis
    unfolding Scan_def Let_def
    by (intro sort_outputs_paths_ok Tree_paths_ok consolidate_paths_ok run_workers_paths_ok
          Summary_new_paths_ok sub)
qed

text \<open>
  C3.  The plain lists and the keys of the readme summaries hold the paths relative to the
  root that the walk computed.  The records of the extractors do not: each worker joins
  the relative path to the root to read the file and hands the joined path to the
  extractor, which stores it.  On this tree, scanned at the root \<open>/r\<close>, the module, the
  schema file, the decision record and the readme summary hold paths that start with
  \<open>/r/\<close>, next to the relative paths of the same scan.
\<close>

theorem record_paths_joined_to_root:
  "candidates files_1 lib_glob fs_records cfg_r
     = [''Dockerfile'', ''README.md'', ''api.proto'', ''docs/adr/0001.md'', ''go.mod''] \<and>
   Dockerfiles (Scan files_1 lib_glob fs_records None id cfg_r) = [''Dockerfile''] \<and>
   Readmes (Scan files_1 lib_glob fs_records None id cfg_r) = [''README.md''] \<and>
   map Path (GoModules (Scan files_1 lib_glob fs_records None id cfg_r)) = [''/r/go.mod''] \<and>
   map ProtoInfo_File (Proto (Scan files_1 lib_glob fs_records None id cfg_r)) = [''/r/api.proto''] \<and>
   map Decision_File (Decisions (Scan files_1 lib_glob fs_records None id cfg_r))
     = [''/r/docs/adr/0001.md''] \<and>
   map_option ReadmeSummary_File (ReadmeSummaries (Scan files_1 lib_glob fs_records None id cfg_r) ''README.md'')
     = Some ''/r/README.md'' \<and>
   map Path (GoModules (Scan files_2 lib_glob fs_records None id cfg_r)) = [''/r/go.mod''] \<and>
   map ProtoInfo_File (Proto (Scan files_2 lib_glob fs_records None id cfg_r)) = [''/r/api.proto''] \<and>
   map Decision_File (Decisions (Scan files_2 lib_glob fs_records None id cfg_r))
     = [''/r/docs/adr/0001.md''] \<and>
   map_option ReadmeSummary_File (ReadmeSummaries (Scan files_2 lib_glob fs_records None id cfg_r) ''README.md'')
     = Some ''/r/README.md''"
  by code_simp

section \<open>What the sort block does achieve\<close>

lemma Scan_sorted:
  "sorted (map Path (GoModules (Scan pk L fs ctx sched cfg))) \<and>
   sorted (MakeTargets (Scan pk L fs ctx sched cfg)) \<and>
   sorted (Dockerfiles (Scan pk L fs ctx sched cfg)) \<and>
   sorted (SQLMigrations (Scan pk L fs ctx sched cfg)) \<and>
   sorted (EnvExamples (Scan pk L fs ctx sched cfg)) \<and>
   sorted (Licenses (Scan pk L fs ctx sched cfg)) \<and>
   sorted (Readmes (Scan pk L fs ctx sched cfg))"
  by (simp add: Scan_def Let_def sort_outputs_def)

text \<open>
  A worker appends to a list of the summary what it would append to an empty one, so the
  list after all workers is the concatenation of their contributions in merge order.
\<close>

lemma foldl_appends:
  assumes "\<And>s p. f (w s p) = f s @ f (w s0 p)"
  shows "f (foldl w s ps) = f s @ concat (map (\<lambda>p. f (w s0 p)) ps)"
proof (induction ps arbitrary: s)
  case Nil
  show ?case by simp
next
  case (Cons p ps)
  have "f (foldl w (w s p) ps) = f (w s p) @ concat (map (\<lambda>p. f (w s0 p)) ps)"
    by (rule Cons.IH)
  also have "f (w s p) = f s @ f (w s0 p)" by (rule assms)
  finally show ?case by simp
qed

lemma mset_concat_map: "mset (concat (map g ps)) = (\<Sum>p\<in>#mset ps. mset (g p))"
  by (induction ps) simp_all

lemma foldl_appends_perm:
  assumes "\<And>s p. f (w s p) = f s @ f (w s0 p)" and "mset ps = mset qs"
  shows "mset (f (foldl w s ps)) = mset (f (foldl w s qs))"
  using assms(2) by (simp add: foldl_appends[of f w s0, OF assms(1)] mset_concat_map)

lemma sort_mset_cong: "mset xs = mset ys \<Longrightarrow> sort xs = sort ys"
  by (rule properties_for_sort) simp_all

lemma classify_GoModules:
  "GoModules s0 = [] \<Longrightarrow>
   GoModules (classify pk fs cfg p s) = GoModules s @ GoModules (classify pk fs cfg p s0)"
  unfolding classify_def Let_def
  by (simp add: if_distrib[where f=GoModules] sum.case_distrib[where h=GoModules]
        if_distrib[where f="(@) (GoModules s)"] sum.case_distrib[where h="(@) (GoModules s)"]
        split del: if_split cong: if_cong sum.case_cong)

lemma classify_MakeTargets:
  "MakeTargets s0 = [] \<Longrightarrow>
   MakeTargets (classify pk fs cfg p s) = MakeTargets s @ MakeTargets (classify pk fs cfg p s0)"
  unfolding classify_def Let_def
  by (simp add: if_distrib[where f=MakeTargets] sum.case_distrib[where h=MakeTargets]
        if_distrib[where f="(@) (MakeTargets s)"] sum.case_distrib[where h="(@) (MakeTargets s)"]
        split del: if_split cong: if_cong sum.case_cong)

lemma classify_Dockerfiles:
  "Dockerfiles s0 = [] \<Longrightarrow>
   Dockerfiles (classify pk fs cfg p s) = Dockerfiles s @ Dockerfiles (classify pk fs cfg p s0)"
  unfolding classify_def Let_def
  by (simp add: if_distrib[where f=Dockerfiles] sum.case_distrib[where h=Dockerfiles]
        if_distrib[where f="(@) (Dockerfiles s)"] sum.case_distrib[where h="(@) (Dockerfiles s)"]
        split del: if_split cong: if_cong sum.case_cong)

lemma classify_SQLMigrations:
  "SQLMigrations s0 = [] \<Longrightarrow>
   SQLMigrations (classify pk fs cfg p s) = SQLMigrations s @ SQLMigrations (classify pk fs cfg p s0)"
  unfolding classify_def Let_def
  by (simp add: if_distrib[where f=SQLMigrations] sum.case_distrib[where h=SQLMigrations]
        if_distrib[where f="(@) (SQLMigrations s)"] sum.case_distrib[where h="(@) (SQLMigrations s)"]
        split del: if_split cong: if_cong sum.case_cong)

lemma classify_EnvExamples:
  "EnvExamples s0 = [] \<Longrightarrow>
   EnvExamples (classify pk fs cfg p s) = EnvExamples s @ EnvExamples (classify pk fs cfg p s0)"
  unfolding classify_def Let_def
  by (simp add: if_distrib[where f=EnvExamples] sum.case_distrib[where h=EnvExamples]
        if_distrib[where f="(@) (EnvExamples s)"] sum.case_distrib[where h="(@) (EnvExamples s)"]
        split del: if_split cong: if_cong sum.case_cong)

lemma classify_Licenses:
  "Licenses s0 = [] \<Longrightarrow>
   Licenses (classify pk fs cfg p s) = Licenses s @ Licenses (classify pk fs cfg p s0)"
  unfolding classify_def Let_def
  by (simp add: if_distrib[where f=Licenses] sum.case_distrib[where h=Licenses]
        if_distrib[where f="(@) (Licenses s)"] sum.case_distrib[where h="(@) (Licenses s)"]
        split del: if_split cong: if_cong sum.case_cong)

lemma classify_Readmes:
  "Readmes s0 = [] \<Longrightarrow>
   Readmes (classify pk fs cfg p s) = Readmes s @ Readmes (classify pk fs cfg p s0)"
  unfolding classify_def Let_def
  by (simp add: if_distrib[where f=Readmes] sum.case_distrib[where h=Readmes]
        if_distrib[where f="(@) (Readmes s)"] sum.case_distrib[where h="(@) (Readmes s)"]
        split del: if_split cong: if_cong sum.case_cong)

lemma tech_stats_lists:
  "GoModules (tech_stats p s) = GoModules s" "MakeTargets (tech_stats p s) = MakeTargets s"
  "Dockerfiles (tech_stats p s) = Dockerfiles s" "SQLMigrations (tech_stats p s) = SQLMigrations s"
  "EnvExamples (tech_stats p s) = EnvExamples s" "Licenses (tech_stats p s) = Licenses s"
  "Readmes (tech_stats p s) = Readmes s"
  by (simp_all add: tech_stats_def Let_def)

lemma Summary_new_lists:
  "GoModules (Summary_new L cfg) = []" "MakeTargets (Summary_new L cfg) = []"
  "Dockerfiles (Summary_new L cfg) = []" "SQLMigrations (Summary_new L cfg) = []"
  "EnvExamples (Summary_new L cfg) = []" "Licenses (Summary_new L cfg) = []"
  "Readmes (Summary_new L cfg) = []"
  by (simp_all add: Summary_new_def)

lemma consolidate_lists:
  "GoModules (consolidate L fs cfg s) = GoModules s" "MakeTargets (consolidate L fs cfg s) = MakeTargets s"
  "Dockerfiles (consolidate L fs cfg s) = Dockerfiles s" "SQLMigrations (consolidate L fs cfg s) = SQLMigrations s"
  "EnvExamples (consolidate L fs cfg s) = EnvExamples s" "Licenses (consolidate L fs cfg s) = Licenses s"
  "Readmes (consolidate L fs cfg s) = Readmes s"
  by (simp_all add: consolidate_def split: option.splits)

lemma worker_GoModules:
  "GoModules (worker pk fs cfg s p)
     = GoModules s @ GoModules (worker pk fs cfg (Summary_new L cfg) p)"
proof -
  have "GoModules (worker pk fs cfg s p) = GoModules (classify pk fs cfg p s)"
    by (simp add: worker_def tech_stats_lists)
  also have "\<dots> = GoModules s @ GoModules (classify pk fs cfg p (Summary_new L cfg))"
    by (rule classify_GoModules) (simp add: Summary_new_lists)
  also have "GoModules (classify pk fs cfg p (Summary_new L cfg))
      = GoModules (worker pk fs cfg (Summary_new L cfg) p)"
    by (simp add: worker_def tech_stats_lists)
  finally show ?thesis .
qed

lemma run_workers_GoModules_perm:
  "mset ps = mset qs \<Longrightarrow>
   mset (GoModules (run_workers pk fs cfg ps (Summary_new L cfg)))
     = mset (GoModules (run_workers pk fs cfg qs (Summary_new L cfg)))"
  unfolding run_workers_def
  by (rule foldl_appends_perm[where f = GoModules and w = "worker pk fs cfg"
        and ?s0.0 = "Summary_new L cfg"]) (rule worker_GoModules)

lemma worker_MakeTargets:
  "MakeTargets (worker pk fs cfg s p)
     = MakeTargets s @ MakeTargets (worker pk fs cfg (Summary_new L cfg) p)"
proof -
  have "MakeTargets (worker pk fs cfg s p) = MakeTargets (classify pk fs cfg p s)"
    by (simp add: worker_def tech_stats_lists)
  also have "\<dots> = MakeTargets s @ MakeTargets (classify pk fs cfg p (Summary_new L cfg))"
    by (rule classify_MakeTargets) (simp add: Summary_new_lists)
  also have "MakeTargets (classify pk fs cfg p (Summary_new L cfg))
      = MakeTargets (worker pk fs cfg (Summary_new L cfg) p)"
    by (simp add: worker_def tech_stats_lists)
  finally show ?thesis .
qed

lemma run_workers_MakeTargets_perm:
  "mset ps = mset qs \<Longrightarrow>
   mset (MakeTargets (run_workers pk fs cfg ps (Summary_new L cfg)))
     = mset (MakeTargets (run_workers pk fs cfg qs (Summary_new L cfg)))"
  unfolding run_workers_def
  by (rule foldl_appends_perm[where f = MakeTargets and w = "worker pk fs cfg"
        and ?s0.0 = "Summary_new L cfg"]) (rule worker_MakeTargets)

lemma worker_Dockerfiles:
  "Dockerfiles (worker pk fs cfg s p)
     = Dockerfiles s @ Dockerfiles (worker pk fs cfg (Summary_new L cfg) p)"
proof -
  have "Dockerfiles (worker pk fs cfg s p) = Dockerfiles (classify pk fs cfg p s)"
    by (simp add: worker_def tech_stats_lists)
  also have "\<dots> = Dockerfiles s @ Dockerfiles (classify pk fs cfg p (Summary_new L cfg))"
    by (rule classify_Dockerfiles) (simp add: Summary_new_lists)
  also have "Dockerfiles (classify pk fs cfg p (Summary_new L cfg))
      = Dockerfiles (worker pk fs cfg (Summary_new L cfg) p)"
    by (simp add: worker_def tech_stats_lists)
  finally show ?thesis .
qed

lemma run_workers_Dockerfiles_perm:
  "mset ps = mset qs \<Longrightarrow>
   mset (Dockerfiles (run_workers pk fs cfg ps (Summary_new L cfg)))
     = mset (Dockerfiles (run_workers pk fs cfg qs (Summary_new L cfg)))"
  unfolding run_workers_def
  by (rule foldl_appends_perm[where f = Dockerfiles and w = "worker pk fs cfg"
        and ?s0.0 = "Summary_new L cfg"]) (rule worker_Dockerfiles)

lemma worker_SQLMigrations:
  "SQLMigrations (worker pk fs cfg s p)
     = SQLMigrations s @ SQLMigrations (worker pk fs cfg (Summary_new L cfg) p)"
proof -
  have "SQLMigrations (worker pk fs cfg s p) = SQLMigrations (classify pk fs cfg p s)"
    by (simp add: worker_def tech_stats_lists)
  also have "\<dots> = SQLMigrations s @ SQLMigrations (classify pk fs cfg p (Summary_new L cfg))"
    by (rule classify_SQLMigrations) (simp add: Summary_new_lists)
  also have "SQLMigrations (classify pk fs cfg p (Summary_new L cfg))
      = SQLMigrations (worker pk fs cfg (Summary_new L cfg) p)"
    by (simp add: worker_def tech_stats_lists)
  finally show ?thesis .
qed

lemma run_workers_SQLMigrations_perm:
  "mset ps = mset qs \<Longrightarrow>
   mset (SQLMigrations (run_workers pk fs cfg ps (Summary_new L cfg)))
     = mset (SQLMigrations (run_workers pk fs cfg qs (Summary_new L cfg)))"
  unfolding run_workers_def
  by (rule foldl_appends_perm[where f = SQLMigrations and w = "worker pk fs cfg"
        and ?s0.0 = "Summary_new L cfg"]) (rule worker_SQLMigrations)

lemma worker_EnvExamples:
  "EnvExamples (worker pk fs cfg s p)
     = EnvExamples s @ EnvExamples (worker pk fs cfg (Summary_new L cfg) p)"
proof -
  have "EnvExamples (worker pk fs cfg s p) = EnvExamples (classify pk fs cfg p s)"
    by (simp add: worker_def tech_stats_lists)
  also have "\<dots> = EnvExamples s @ EnvExamples (classify pk fs cfg p (Summary_new L cfg))"
    by (rule classify_EnvExamples) (simp add: Summary_new_lists)
  also have "EnvExamples (classify pk fs cfg p (Summary_new L cfg))
      = EnvExamples (worker pk fs cfg (Summary_new L cfg) p)"
    by (simp add: worker_def tech_stats_lists)
  finally show ?thesis .
qed

lemma run_workers_EnvExamples_perm:
  "mset ps = mset qs \<Longrightarrow>
   mset (EnvExamples (run_workers pk fs cfg ps (Summary_new L cfg)))
     = mset (EnvExamples (run_workers pk fs cfg qs (Summary_new L cfg)))"
  unfolding run_workers_def
  by (rule foldl_appends_perm[where f = EnvExamples and w = "worker pk fs cfg"
        and ?s0.0 = "Summary_new L cfg"]) (rule worker_EnvExamples)

lemma worker_Licenses:
  "Licenses (worker pk fs cfg s p)
     = Licenses s @ Licenses (worker pk fs cfg (Summary_new L cfg) p)"
proof -
  have "Licenses (worker pk fs cfg s p) = Licenses (classify pk fs cfg p s)"
    by (simp add: worker_def tech_stats_lists)
  also have "\<dots> = Licenses s @ Licenses (classify pk fs cfg p (Summary_new L cfg))"
    by (rule classify_Licenses) (simp add: Summary_new_lists)
  also have "Licenses (classify pk fs cfg p (Summary_new L cfg))
      = Licenses (worker pk fs cfg (Summary_new L cfg) p)"
    by (simp add: worker_def tech_stats_lists)
  finally show ?thesis .
qed

lemma run_workers_Licenses_perm:
  "mset ps = mset qs \<Longrightarrow>
   mset (Licenses (run_workers pk fs cfg ps (Summary_new L cfg)))
     = mset (Licenses (run_workers pk fs cfg qs (Summary_new L cfg)))"
  unfolding run_workers_def
  by (rule foldl_appends_perm[where f = Licenses and w = "worker pk fs cfg"
        and ?s0.0 = "Summary_new L cfg"]) (rule worker_Licenses)

lemma worker_Readmes:
  "Readmes (worker pk fs cfg s p)
     = Readmes s @ Readmes (worker pk fs cfg (Summary_new L cfg) p)"
proof -
  have "Readmes (worker pk fs cfg s p) = Readmes (classify pk fs cfg p s)"
    by (simp add: worker_def tech_stats_lists)
  also have "\<dots> = Readmes s @ Readmes (classify pk fs cfg p (Summary_new L cfg))"
    by (rule classify_Readmes) (simp add: Summary_new_lists)
  also have "Readmes (classify pk fs cfg p (Summary_new L cfg))
      = Readmes (worker pk fs cfg (Summary_new L cfg) p)"
    by (simp add: worker_def tech_stats_lists)
  finally show ?thesis .
qed

lemma run_workers_Readmes_perm:
  "mset ps = mset qs \<Longrightarrow>
   mset (Readmes (run_workers pk fs cfg ps (Summary_new L cfg)))
     = mset (Readmes (run_workers pk fs cfg qs (Summary_new L cfg)))"
  unfolding run_workers_def
  by (rule foldl_appends_perm[where f = Readmes and w = "worker pk fs cfg"
        and ?s0.0 = "Summary_new L cfg"]) (rule worker_Readmes)


lemma modules_read_if:
  "modules_read fs a \<Longrightarrow> modules_read fs b \<Longrightarrow> modules_read fs (if c then a else b)"
  by simp

lemma modules_read_case_sum:
  "(\<And>e. x = Inl e \<Longrightarrow> modules_read fs (f e)) \<Longrightarrow> (\<And>v. x = Inr v \<Longrightarrow> modules_read fs (g v)) \<Longrightarrow>
   modules_read fs (case x of Inl e \<Rightarrow> f e | Inr v \<Rightarrow> g v)"
  by (cases x) simp_all

lemma classify_modules_read:
  assumes "modules_read fs s"
  shows "modules_read fs (classify pk fs cfg p s)"
  unfolding classify_def Let_def
proof (intro modules_read_if modules_read_case_sum, goal_cases)
  case (2 gm)
  then have "parseGoMod fs (Path gm) = Inr gm" using parseGoMod_Path[OF 2] by simp
  then show ?case using assms by (simp add: modules_read_def)
qed (use assms in \<open>simp_all add: modules_read_def\<close>)

lemma run_workers_modules_read:
  "modules_read fs s \<Longrightarrow> modules_read fs (run_workers pk fs cfg order s)"
proof (induction order arbitrary: s)
  case Nil
  then show ?case by (simp add: run_workers_def)
next
  case (Cons p order)
  from Cons.prems have "modules_read fs (classify pk fs cfg p s)" by (rule classify_modules_read)
  then have "modules_read fs (worker pk fs cfg s p)"
    by (simp add: modules_read_def worker_def tech_stats_lists)
  from Cons.IH[OF this] show ?case by (simp add: run_workers_def)
qed

lemma insort_key_map:
  "G (f x) = x \<Longrightarrow> list_all (\<lambda>y. f (G y) = y) ys \<Longrightarrow>
   insort_key f x (map G ys) = map G (insort (f x) ys)"
  by (induction ys) auto

lemma sort_key_by_key:
  "list_all (\<lambda>x. G (f x) = x) xs \<Longrightarrow> sort_key f xs = map G (sort (map f xs))"
proof (induction xs)
  case Nil
  show ?case by simp
next
  case (Cons x xs)
  then have gx: "G (f x) = x" and rest: "list_all (\<lambda>x. G (f x) = x) xs" by simp_all
  have keys: "list_all (\<lambda>y. f (G y) = y) (sort (map f xs))"
    using rest by (auto simp: list_all_iff)
  have "sort_key f (x # xs) = insort_key f x (map G (sort (map f xs)))"
    using Cons.IH[OF rest] by simp
  also have "\<dots> = map G (insort (f x) (sort (map f xs)))"
    using gx keys by (rule insort_key_map)
  finally show ?case by simp
qed

lemma sort_key_mset_cong:
  assumes "list_all (\<lambda>x. G (f x) = x) xs" and "mset xs = mset ys"
  shows "sort_key f xs = sort_key f ys"
proof -
  have "set ys = set xs" using assms(2) by (metis mset_eq_setD)
  then have ys: "list_all (\<lambda>x. G (f x) = x) ys" using assms(1) by (simp add: list_all_iff)
  have "mset (map f xs) = mset (map f ys)" using assms(2) by (metis mset_map)
  then have "sort (map f xs) = sort (map f ys)" by (rule sort_mset_cong)
  then show ?thesis by (simp add: sort_key_by_key[OF assms(1)] sort_key_by_key[OF ys])
qed

text \<open>
  The seven collections that the sort block covers come back sorted, and the same for any
  two merge orders of the same dispatched paths.
\<close>

lemma Scan_sorted_collections_schedule_free:
  assumes "mset (sched1 (dispatched ctx (candidates pk L fs cfg))) = mset (dispatched ctx (candidates pk L fs cfg))"
    and "mset (sched2 (dispatched ctx (candidates pk L fs cfg))) = mset (dispatched ctx (candidates pk L fs cfg))"
  shows "GoModules (Scan pk L fs ctx sched1 cfg) = GoModules (Scan pk L fs ctx sched2 cfg) \<and>
         MakeTargets (Scan pk L fs ctx sched1 cfg) = MakeTargets (Scan pk L fs ctx sched2 cfg) \<and>
         Dockerfiles (Scan pk L fs ctx sched1 cfg) = Dockerfiles (Scan pk L fs ctx sched2 cfg) \<and>
         SQLMigrations (Scan pk L fs ctx sched1 cfg) = SQLMigrations (Scan pk L fs ctx sched2 cfg) \<and>
         EnvExamples (Scan pk L fs ctx sched1 cfg) = EnvExamples (Scan pk L fs ctx sched2 cfg) \<and>
         Licenses (Scan pk L fs ctx sched1 cfg) = Licenses (Scan pk L fs ctx sched2 cfg) \<and>
         Readmes (Scan pk L fs ctx sched1 cfg) = Readmes (Scan pk L fs ctx sched2 cfg)"
proof -
  let ?ps = "sched1 (dispatched ctx (candidates pk L fs cfg))"
  let ?qs = "sched2 (dispatched ctx (candidates pk L fs cfg))"
  let ?a = "run_workers pk fs cfg ?ps (Summary_new L cfg)"
  let ?b = "run_workers pk fs cfg ?qs (Summary_new L cfg)"
  have perm: "mset ?ps = mset ?qs" using assms by simp
  have m0: "modules_read fs (Summary_new L cfg)" by (simp add: modules_read_def Summary_new_def)
  have "list_all (\<lambda>gm. parseGoMod fs (Path gm) = Inr gm) (GoModules ?a)"
    using run_workers_modules_read[OF m0] by (simp add: modules_read_def)
  then have det: "list_all (\<lambda>gm. module_at fs (Path gm) = gm) (GoModules ?a)"
    by (auto simp: list_all_iff module_at_def)
  have g: "sort_key Path (GoModules ?a) = sort_key Path (GoModules ?b)"
    using det run_workers_GoModules_perm[OF perm] by (rule sort_key_mset_cong)
  have l: "sort (MakeTargets ?a) = sort (MakeTargets ?b)"
      "sort (Dockerfiles ?a) = sort (Dockerfiles ?b)"
      "sort (SQLMigrations ?a) = sort (SQLMigrations ?b)"
      "sort (EnvExamples ?a) = sort (EnvExamples ?b)"
      "sort (Licenses ?a) = sort (Licenses ?b)"
      "sort (Readmes ?a) = sort (Readmes ?b)"
    by (rule sort_mset_cong, rule run_workers_MakeTargets_perm[OF perm],
        rule sort_mset_cong, rule run_workers_Dockerfiles_perm[OF perm],
        rule sort_mset_cong, rule run_workers_SQLMigrations_perm[OF perm],
        rule sort_mset_cong, rule run_workers_EnvExamples_perm[OF perm],
        rule sort_mset_cong, rule run_workers_Licenses_perm[OF perm],
        rule sort_mset_cong, rule run_workers_Readmes_perm[OF perm])
  show ?thesis
    using g l by (simp add: Scan_def Let_def sort_outputs_def consolidate_lists)
qed

end
